theory Spec2Isabelle
  imports Main
begin

section \<open>The comment core of discuit (core/comment.go)\<close>

text \<open>
  The file core/comment.go keeps a forest of comments in a relational store and, for one
  comment loaded into memory, offers Save, Delete, Vote, DeleteVote, ChangeVote and
  ChangeUserGroup. Every Go method mutates the receiver \<open>*Comment\<close> and the store behind
  \<open>c.db\<close> and returns an \<open>error\<close>; here each method is a function from the store and the
  comment to the triple (returned error, new store, new comment), where the returned
  error is \<open>None\<close> for Go's \<open>nil\<close>.

  Conventions of the embedding:
  \<^item> \<open>uid.ID\<close> is a natural number, its zero value (what \<open>Clear\<close> leaves) is \<open>0\<close>, and
    \<open>EqualsTo\<close> is equality;
  \<^item> \<open>uid.NullID\<close>, \<open>msql.NullTime\<close> and \<open>msql.NullBool\<close> are options: \<open>Valid = false\<close>
    is \<open>None\<close>;
  \<^item> Go's \<open>int\<close> counters are integers (no claim depends on 64-bit wrap-around);
  \<^item> \<open>time.Now()\<close> and \<open>uid.New()\<close> are arguments of the operation that calls them;
  \<^item> an SQL statement is a function on the tables; it fails only where a constraint
    of the table makes it fail (a duplicate key), and a failed transaction leaves the store
    as it was;
  \<^item> a panic is the error value \<open>Panic\<close>, which reaches the caller of the operation;
  \<^item> the notifications started with \<open>go func\<close> are detached from the caller and have no
    part in the result, so they are left out.
\<close>

subsection \<open>Data\<close>

type_synonym uid = nat
type_synonym timestamp = nat

text \<open>
  Modelled from the spec: the type \<open>UserGroup\<close> is declared outside comment.go. The file
  names four of its values; \<open>UserGroupOther n\<close> stands for every other value of the
  underlying integer type.
\<close>

datatype UserGroup =
    UserGroupNaN
  | UserGroupNormal
  | UserGroupAdmins
  | UserGroupMods
  | UserGroupOther nat

datatype error =
    errCommentNotFound
  | errCommentDeleted
  | errNotAuthor
  | errNotMod
  | errNotAdmin
  | errInvalidUserGroup
  | errPostLocked
  | BadRequest string string
  | ErrNoRows
  | ErrDuplicateKey
  | Wrapped string error
  | ExternalError string
  | Panic string

text \<open>The fields of \<open>core.User\<close>, \<open>core.Post\<close> and \<open>core.Mute\<close> that comment.go reads.\<close>

record User =
  User_ID :: uid
  Username :: string
  Admin :: bool

record Post =
  Post_ID :: uid
  Post_PublicID :: string
  Post_CommunityID :: uid
  Post_CommunityName :: string
  Post_AuthorID :: uid

record Mute =
  MutedUserID :: "uid option"

record Comment =
  ID :: uid
  PostID :: uid
  PostPublicID :: string
  CommunityID :: uid
  CommunityName :: string
  AuthorID :: uid
  AuthorUsername :: string
  PostedAs :: UserGroup
  AuthorDeleted :: bool
  ParentID :: "uid option"
  Depth :: int
  NumReplies :: int
  NumRepliesDirect :: int
  Ancestors :: "uid list"
  Body :: string
  Upvotes :: int
  Downvotes :: int
  Points :: int
  CreatedAt :: timestamp
  EditedAt :: "timestamp option"
  DeletedAt :: "timestamp option"
  DeletedBy :: "uid option"
  DeletedAs :: UserGroup
  Author :: "User option"
  IsAuthorMuted :: bool
  ViewerVoted :: "bool option"
  ViewerVotedUp :: "bool option"
  PostTitle :: string
  PostDeleted :: bool
  PostDeletedAs :: UserGroup

subsection \<open>The store\<close>

text \<open>
  A row of the table \<open>comments\<close>, one field per column; the column \<open>id\<close> is the key of the
  table. The column \<open>ancestors\<close> holds NULL or the JSON text of a list of ids, which is
  kept here as the list it encodes.
\<close>

record comment_row =
  col_post_id :: uid
  col_post_public_id :: string
  col_community_id :: uid
  col_community_name :: string
  col_user_id :: uid
  col_username :: string
  col_user_group :: UserGroup
  col_user_deleted :: bool
  col_parent_id :: "uid option"
  col_depth :: int
  col_no_replies :: int
  col_no_replies_direct :: int
  col_ancestors :: "uid list option"
  col_body :: string
  col_upvotes :: int
  col_downvotes :: int
  col_points :: int
  col_created_at :: timestamp
  col_edited_at :: "timestamp option"
  col_deleted_at :: "timestamp option"
  col_deleted_by :: "uid option"
  col_deleted_as :: UserGroup

record vote_row =
  vote_id :: nat
  vote_comment_id :: uid
  vote_user_id :: uid
  vote_up :: bool

record user_row =
  user_points :: int
  user_no_comments :: int

record post_row =
  post_no_comments :: int
  post_last_activity_at :: timestamp

record db =
  comments :: "uid \<rightharpoonup> comment_row"
  comment_votes :: "vote_row list"
  users :: "uid \<rightharpoonup> user_row"
  posts :: "uid \<rightharpoonup> post_row"
  posts_comments :: "(uid \<times> uid \<times> nat) list"
  comment_replies :: "(uid \<times> uid) list"
  comment_reports :: "uid list"

text \<open>
  The functions and constants of the repository that comment.go calls and that are
  declared in other files are parameters of the model: the lookups read the store and may
  fail with any error.
\<close>

record env =
  IsPostLocked :: "db \<Rightarrow> uid \<Rightarrow> error + bool"
  UserMod :: "db \<Rightarrow> uid \<Rightarrow> uid \<Rightarrow> error + bool"
  GetUser :: "db \<Rightarrow> uid \<Rightarrow> error + User"
  GetUsersIDs :: "db \<Rightarrow> uid list \<Rightarrow> error + User list"
  GetMutedUsers :: "db \<Rightarrow> uid \<Rightarrow> error + Mute list"
  TruncateUnicodeString :: "string \<Rightarrow> nat \<Rightarrow> string"
  maxCommentBodyLength :: nat
  maxCommentDepth :: int
  default_user_group :: UserGroup
  default_deleted_as :: UserGroup

definition postsCommentsTypeComments :: nat where
  "postsCommentsTypeComments = 1"

text \<open>
  Modelled from the spec: \<open>msql.Transact\<close> is declared outside comment.go. It runs the
  function in one transaction, all or nothing: an error rolls the store back.
\<close>

definition Transact :: "(db \<Rightarrow> error + db) \<Rightarrow> db \<Rightarrow> error option \<times> db" where
  "Transact f d = (case f d of Inl e \<Rightarrow> (Some e, d) | Inr d' \<Rightarrow> (None, d'))"

text \<open>
  Modelled from the spec: \<open>incrementUserPoints\<close> is declared outside comment.go. It adds
  a signed delta to the reputation points of one user, best effort: nothing is reported
  to the caller, and a user without a row is left alone.
\<close>

definition incrementUserPoints :: "db \<Rightarrow> uid \<Rightarrow> int \<Rightarrow> db" where
  "incrementUserPoints d u n =
     (case users d u of
        None \<Rightarrow> d
      | Some r \<Rightarrow> d\<lparr>users := (users d)(u \<mapsto> r\<lparr>user_points := user_points r + n\<rparr>)\<rparr>)"

text \<open>
  Modelled from the spec: \<open>RemoveAllReportsOfComment\<close> is declared outside comment.go. It
  removes the pending moderation reports that reference the comment, best effort.
\<close>

definition RemoveAllReportsOfComment :: "db \<Rightarrow> uid \<Rightarrow> db" where
  "RemoveAllReportsOfComment d i = d\<lparr>comment_reports := filter (\<lambda>k. k \<noteq> i) (comment_reports d)\<rparr>"

subsection \<open>Reading comments\<close>

definition Deleted :: "Comment \<Rightarrow> bool" where
  "Deleted c = (DeletedAt c \<noteq> None)"

definition stripDeletedInfo :: "Comment \<Rightarrow> Comment" where
  "stripDeletedInfo c =
     (if \<not> Deleted c then c
      else c\<lparr>AuthorID := 0,
             AuthorUsername := ''Hidden'',
             PostedAs := UserGroupNaN,
             Body := ''[Deleted comment]'',
             ViewerVoted := None,
             ViewerVotedUp := None,
             Author := None\<rparr>)"

text \<open>
  One row of the result of the query of \<open>buildSelectCommentsQuery\<close>: the key, the row of
  \<open>comments\<close> and, for a logged-in viewer, the row of \<open>comment_votes\<close> that the left outer
  join found (\<open>Some None\<close> when it found none). \<open>scan_row\<close> is the body of the scanning
  loop of \<open>scanComments\<close>: the fields no column feeds keep Go's zero value.
\<close>

type_synonym result_row = "uid \<times> comment_row \<times> vote_row option option"

definition scan_row :: "result_row \<Rightarrow> Comment" where
  "scan_row x =
     (case x of (i, r, j) \<Rightarrow>
       \<lparr>ID = i,
        PostID = col_post_id r,
        PostPublicID = col_post_public_id r,
        CommunityID = col_community_id r,
        CommunityName = col_community_name r,
        AuthorID = col_user_id r,
        AuthorUsername = col_username r,
        PostedAs = col_user_group r,
        AuthorDeleted = col_user_deleted r,
        ParentID = col_parent_id r,
        Depth = col_depth r,
        NumReplies = col_no_replies r,
        NumRepliesDirect = col_no_replies_direct r,
        Ancestors = (case col_ancestors r of None \<Rightarrow> [] | Some a \<Rightarrow> a),
        Body = col_body r,
        Upvotes = col_upvotes r,
        Downvotes = col_downvotes r,
        Points = col_points r,
        CreatedAt = col_created_at r,
        EditedAt = col_edited_at r,
        DeletedAt = col_deleted_at r,
        DeletedBy = None,
        DeletedAs = col_deleted_as r,
        Author = None,
        IsAuthorMuted = False,
        ViewerVoted = (case j of None \<Rightarrow> None | Some v \<Rightarrow> Some (v \<noteq> None)),
        ViewerVotedUp = (case j of None \<Rightarrow> None | Some None \<Rightarrow> None | Some (Some v) \<Rightarrow> Some (vote_up v)),
        PostTitle = [],
        PostDeleted = False,
        PostDeletedAs = UserGroupNaN\<rparr>)"

text \<open>The query of \<open>GetComment\<close>: \<open>WHERE comments.id = ?\<close>, joined with the viewer's votes.\<close>

definition select_comment :: "db \<Rightarrow> uid \<Rightarrow> uid option \<Rightarrow> result_row list" where
  "select_comment d i viewer =
     (case comments d i of
        None \<Rightarrow> []
      | Some r \<Rightarrow>
          (case viewer of
             None \<Rightarrow> [(i, r, None)]
           | Some u \<Rightarrow>
               (case filter (\<lambda>v. vote_comment_id v = i \<and> vote_user_id v = u) (comment_votes d) of
                  [] \<Rightarrow> [(i, r, Some None)]
                | v # vs \<Rightarrow> map (\<lambda>w. (i, r, Some (Some w))) (v # vs))))"

text \<open>The inner loop over the mutes; dereferencing a nil \<open>MutedUserID\<close> panics.\<close>

fun mute_loop :: "Mute list \<Rightarrow> Comment \<Rightarrow> error + Comment" where
  "mute_loop [] c = Inr c"
| "mute_loop (m # ms) c =
     (case MutedUserID m of
        None \<Rightarrow> Inl (Panic ''nil pointer dereference'')
      | Some u \<Rightarrow> if u = AuthorID c then Inr (c\<lparr>IsAuthorMuted := True\<rparr>) else mute_loop ms c)"

fun mute_all :: "Mute list \<Rightarrow> Comment list \<Rightarrow> error + Comment list" where
  "mute_all ms [] = Inr []"
| "mute_all ms (c # cs) =
     (case mute_loop ms c of
        Inl e \<Rightarrow> Inl e
      | Inr c' \<Rightarrow> (case mute_all ms cs of Inl e \<Rightarrow> Inl e | Inr cs' \<Rightarrow> Inr (c' # cs')))"

text \<open>
  \<open>populateCommentAuthors\<close>. The first loop collects the author ids of the comments that
  are not deleted, each id once, in order. The second loop looks every comment's author
  up in the answer of \<open>GetUsersIDs\<close>; its variable \<open>found\<close> starts as true and no
  statement of the loop assigns it, which \<open>author_loop\<close> keeps as it is written.
\<close>

fun collect_author_ids :: "Comment list \<Rightarrow> uid list \<Rightarrow> uid list" where
  "collect_author_ids [] authorIDs = authorIDs"
| "collect_author_ids (c # cs) authorIDs =
     (if \<not> Deleted c \<and> AuthorID c \<notin> set authorIDs
      then collect_author_ids cs (authorIDs @ [AuthorID c])
      else collect_author_ids cs authorIDs)"

fun author_loop :: "User list \<Rightarrow> bool \<Rightarrow> Comment \<Rightarrow> bool \<times> Comment" where
  "author_loop [] found c = (found, c)"
| "author_loop (a # as) found c =
     (if AuthorID c = User_ID a then (found, c\<lparr>Author := Some a\<rparr>) else author_loop as found c)"

fun assign_authors :: "User list \<Rightarrow> Comment list \<Rightarrow> error + Comment list" where
  "assign_authors authors [] = Inr []"
| "assign_authors authors (c # cs) =
     (case author_loop authors True c of
        (found, c') \<Rightarrow>
          if \<not> found then Inl (Panic ''author not found'')
          else (case assign_authors authors cs of Inl e \<Rightarrow> Inl e | Inr cs' \<Rightarrow> Inr (c' # cs')))"

definition populateCommentAuthors :: "env \<Rightarrow> db \<Rightarrow> Comment list \<Rightarrow> error + Comment list" where
  "populateCommentAuthors E d cs =
     (let authorIDs = collect_author_ids cs [] in
      if length authorIDs = 0 then Inr cs
      else (case GetUsersIDs E d authorIDs of
              Inl e \<Rightarrow> Inl e
            | Inr authors \<Rightarrow> assign_authors authors cs))"

text \<open>
  \<open>fmt.Errorf\<close> with \<open>%w\<close> wraps the error a call returned. A panic is not a returned
  error: it unwinds through the callers, so it is passed on as it is.
\<close>

fun Errorf :: "string \<Rightarrow> error \<Rightarrow> error" where
  "Errorf msg (Panic m) = Panic m"
| "Errorf msg e = Wrapped msg e"

definition scanComments :: "env \<Rightarrow> db \<Rightarrow> result_row list \<Rightarrow> uid option \<Rightarrow> error + Comment list" where
  "scanComments E d rows viewer =
     (let cs = map scan_row rows in
      if length cs = 0 then Inl errCommentNotFound
      else
        (case (case viewer of
                 None \<Rightarrow> Inr cs
               | Some u \<Rightarrow> (case GetMutedUsers E d u of Inl e \<Rightarrow> Inl e | Inr mutes \<Rightarrow> mute_all mutes cs)) of
           Inl e \<Rightarrow> Inl e
         | Inr cs1 \<Rightarrow>
             (case populateCommentAuthors E d cs1 of
                Inl e \<Rightarrow> Inl (Errorf ''failed to populate comments authors'' e)
              | Inr cs2 \<Rightarrow> Inr (map stripDeletedInfo cs2))))"

definition GetComment :: "env \<Rightarrow> db \<Rightarrow> uid \<Rightarrow> uid option \<Rightarrow> error + Comment" where
  "GetComment E d i viewer =
     (case scanComments E d (select_comment d i viewer) viewer of
        Inl e \<Rightarrow> Inl (Errorf ''scanComments'' e)
      | Inr cs \<Rightarrow> (case cs of [] \<Rightarrow> Inl errCommentNotFound | c # _ \<Rightarrow> Inr c))"

subsection \<open>SQL statements\<close>

definition and_then :: "error + 'a \<Rightarrow> ('a \<Rightarrow> error + 'b) \<Rightarrow> error + 'b" where
  "and_then r f = (case r of Inl e \<Rightarrow> Inl e | Inr x \<Rightarrow> f x)"

text \<open>\<open>UPDATE comments SET ... WHERE ...\<close>: every row that satisfies the condition is changed.\<close>

definition update_comments :: "(uid \<Rightarrow> comment_row \<Rightarrow> bool) \<Rightarrow> (comment_row \<Rightarrow> comment_row) \<Rightarrow> db \<Rightarrow> db" where
  "update_comments P f d =
     d\<lparr>comments := (\<lambda>k. case comments d k of
                            None \<Rightarrow> None
                          | Some r \<Rightarrow> if P k r then Some (f r) else Some r)\<rparr>"

definition update_user :: "uid \<Rightarrow> (user_row \<Rightarrow> user_row) \<Rightarrow> db \<Rightarrow> db" where
  "update_user u f d =
     (case users d u of None \<Rightarrow> d | Some r \<Rightarrow> d\<lparr>users := (users d)(u \<mapsto> f r)\<rparr>)"

text \<open>
  \<open>INSERT INTO comments (...)\<close> of \<open>addComment\<close>. The columns the statement does not name
  take the defaults of the table: the counters start at zero and the nullable columns at
  NULL. The key is unique.
\<close>

definition exec_insert_comment ::
  "env \<Rightarrow> uid \<Rightarrow> Post \<Rightarrow> User \<Rightarrow> uid option \<Rightarrow> int \<Rightarrow> uid list option \<Rightarrow> string \<Rightarrow> timestamp \<Rightarrow> db \<Rightarrow> error + db" where
  "exec_insert_comment E i post author newParentID depth ancestorsJSON commentBody now d =
     (if comments d i \<noteq> None then Inl ErrDuplicateKey
      else Inr (d\<lparr>comments := (comments d)(i \<mapsto>
        \<lparr>col_post_id = Post_ID post,
         col_post_public_id = Post_PublicID post,
         col_community_id = Post_CommunityID post,
         col_community_name = Post_CommunityName post,
         col_user_id = User_ID author,
         col_username = Username author,
         col_user_group = default_user_group E,
         col_user_deleted = False,
         col_parent_id = newParentID,
         col_depth = depth,
         col_no_replies = 0,
         col_no_replies_direct = 0,
         col_ancestors = ancestorsJSON,
         col_body = commentBody,
         col_upvotes = 0,
         col_downvotes = 0,
         col_points = 0,
         col_created_at = now,
         col_edited_at = None,
         col_deleted_at = None,
         col_deleted_by = None,
         col_deleted_as = default_deleted_as E\<rparr>)\<rparr>))"

definition exec_update_post_activity :: "uid \<Rightarrow> timestamp \<Rightarrow> db \<Rightarrow> error + db" where
  "exec_update_post_activity p now d =
     Inr (case posts d p of
            None \<Rightarrow> d
          | Some r \<Rightarrow> d\<lparr>posts := (posts d)(p \<mapsto>
              r\<lparr>post_no_comments := post_no_comments r + 1, post_last_activity_at := now\<rparr>)\<rparr>)"

definition exec_inc_no_replies_direct :: "uid \<Rightarrow> db \<Rightarrow> error + db" where
  "exec_inc_no_replies_direct p d =
     Inr (update_comments (\<lambda>k r. k = p) (\<lambda>r. r\<lparr>col_no_replies_direct := col_no_replies_direct r + 1\<rparr>) d)"

definition exec_inc_no_replies :: "uid list \<Rightarrow> db \<Rightarrow> error + db" where
  "exec_inc_no_replies args d =
     Inr (update_comments (\<lambda>k r. k \<in> set args) (\<lambda>r. r\<lparr>col_no_replies := col_no_replies r + 1\<rparr>) d)"

definition exec_insert_posts_comments :: "uid \<Rightarrow> uid \<Rightarrow> nat \<Rightarrow> db \<Rightarrow> error + db" where
  "exec_insert_posts_comments target u ty d =
     Inr (d\<lparr>posts_comments := posts_comments d @ [(target, u, ty)]\<rparr>)"

definition exec_insert_comment_reply :: "uid \<Rightarrow> uid \<Rightarrow> db \<Rightarrow> error + db" where
  "exec_insert_comment_reply parent reply d =
     Inr (d\<lparr>comment_replies := comment_replies d @ [(parent, reply)]\<rparr>)"

fun insert_comment_replies :: "uid list \<Rightarrow> uid \<Rightarrow> db \<Rightarrow> error + db" where
  "insert_comment_replies [] i d = Inr d"
| "insert_comment_replies (v # vs) i d =
     and_then (exec_insert_comment_reply v i d) (insert_comment_replies vs i)"

definition exec_add_user_no_comments :: "uid \<Rightarrow> int \<Rightarrow> db \<Rightarrow> error + db" where
  "exec_add_user_no_comments u n d =
     Inr (update_user u (\<lambda>r. r\<lparr>user_no_comments := user_no_comments r + n\<rparr>) d)"

text \<open>\<open>UPDATE comments SET body = ?, edited_at = ? WHERE id = ? AND deleted_at IS NULL\<close>\<close>

definition exec_update_body :: "uid \<Rightarrow> string \<Rightarrow> timestamp \<Rightarrow> db \<Rightarrow> error + db" where
  "exec_update_body i b now d =
     Inr (update_comments (\<lambda>k r. k = i \<and> col_deleted_at r = None)
            (\<lambda>r. r\<lparr>col_body := b, col_edited_at := Some now\<rparr>) d)"

text \<open>\<open>UPDATE comments SET body = "", deleted_at = ?, deleted_by = ?, deleted_as = ? WHERE id = ?\<close>\<close>

definition exec_mark_deleted :: "uid \<Rightarrow> timestamp \<Rightarrow> uid \<Rightarrow> UserGroup \<Rightarrow> db \<Rightarrow> error + db" where
  "exec_mark_deleted i now user g d =
     Inr (update_comments (\<lambda>k r. k = i)
            (\<lambda>r. r\<lparr>col_body := [], col_deleted_at := Some now, col_deleted_by := Some user,
                   col_deleted_as := g\<rparr>) d)"

definition exec_delete_posts_comments :: "uid \<Rightarrow> uid \<Rightarrow> db \<Rightarrow> error + db" where
  "exec_delete_posts_comments target u d =
     Inr (d\<lparr>posts_comments :=
            filter (\<lambda>x. \<not> (fst x = target \<and> fst (snd x) = u)) (posts_comments d)\<rparr>)"

text \<open>\<open>UPDATE comments SET user_group = ? WHERE id = ? AND deleted_at IS NULL\<close>\<close>

definition exec_update_user_group :: "uid \<Rightarrow> UserGroup \<Rightarrow> db \<Rightarrow> error + db" where
  "exec_update_user_group i g d =
     Inr (update_comments (\<lambda>k r. k = i \<and> col_deleted_at r = None) (\<lambda>r. r\<lparr>col_user_group := g\<rparr>) d)"

text \<open>
  The table \<open>comment_votes\<close>. Modelled from the spec: the schema is not part of comment.go;
  a vote is unique per pair of comment and voter, and a second insert for the pair fails
  with the duplicate-key error that \<open>msql.IsErrDuplicateErr\<close> recognises. A new row takes
  the next free id.
\<close>

definition votes_of :: "db \<Rightarrow> uid \<Rightarrow> uid \<Rightarrow> vote_row list" where
  "votes_of d i u = filter (\<lambda>v. vote_comment_id v = i \<and> vote_user_id v = u) (comment_votes d)"

definition next_vote_id :: "vote_row list \<Rightarrow> nat" where
  "next_vote_id vs = Suc (fold max (map vote_id vs) 0)"

definition exec_insert_vote :: "uid \<Rightarrow> uid \<Rightarrow> bool \<Rightarrow> db \<Rightarrow> error + db" where
  "exec_insert_vote i u up d =
     (if votes_of d i u \<noteq> [] then Inl ErrDuplicateKey
      else Inr (d\<lparr>comment_votes := comment_votes d @
        [\<lparr>vote_id = next_vote_id (comment_votes d), vote_comment_id = i, vote_user_id = u,
          vote_up = up\<rparr>]\<rparr>))"

definition IsErrDuplicateErr :: "error \<Rightarrow> bool" where
  "IsErrDuplicateErr e = (e = ErrDuplicateKey)"

text \<open>
  \<open>SELECT id, up FROM comment_votes WHERE comment_id = ? AND user_id = ?\<close> read with
  \<open>QueryRow\<close> and \<open>Scan\<close>: the first row, or the error of an empty result.
\<close>

definition query_vote :: "db \<Rightarrow> uid \<Rightarrow> uid \<Rightarrow> error + (nat \<times> bool)" where
  "query_vote d i u =
     (case votes_of d i u of [] \<Rightarrow> Inl ErrNoRows | v # _ \<Rightarrow> Inr (vote_id v, vote_up v))"

definition exec_delete_vote :: "nat \<Rightarrow> db \<Rightarrow> error + db" where
  "exec_delete_vote n d = Inr (d\<lparr>comment_votes := filter (\<lambda>v. vote_id v \<noteq> n) (comment_votes d)\<rparr>)"

definition exec_update_vote :: "bool \<Rightarrow> nat \<Rightarrow> db \<Rightarrow> error + db" where
  "exec_update_vote up n d =
     Inr (d\<lparr>comment_votes :=
            map (\<lambda>v. if vote_id v = n then v\<lparr>vote_up := up\<rparr> else v) (comment_votes d)\<rparr>)"

text \<open>
  \<open>UPDATE comments SET points = points + ?, upvotes = upvotes + a, downvotes = downvotes + b
  WHERE id = ?\<close>, the statement the three voting operations build.
\<close>

definition exec_update_tally :: "uid \<Rightarrow> int \<Rightarrow> int \<Rightarrow> int \<Rightarrow> db \<Rightarrow> error + db" where
  "exec_update_tally i point a b d =
     Inr (update_comments (\<lambda>k r. k = i)
            (\<lambda>r. r\<lparr>col_points := col_points r + point, col_upvotes := col_upvotes r + a,
                   col_downvotes := col_downvotes r + b\<rparr>) d)"

subsection \<open>addComment\<close>

text \<open>
  The function \<open>f\<close> that \<open>addComment\<close> hands to \<open>msql.Transact\<close>. \<open>ancestors\<close> is \<open>None\<close>
  for Go's nil slice.
\<close>

definition addComment_tx ::
  "env \<Rightarrow> Post \<Rightarrow> User \<Rightarrow> Comment option \<Rightarrow> uid list option \<Rightarrow> string \<Rightarrow> uid \<Rightarrow> timestamp \<Rightarrow> db \<Rightarrow> error + db" where
  "addComment_tx E post author parent ancestors commentBody i now d =
     (let depth = (case parent of None \<Rightarrow> 0 | Some p \<Rightarrow> Depth p + 1);
          newParentID = (case parent of None \<Rightarrow> None | Some p \<Rightarrow> Some (ID p));
          ancestorsJSON = ancestors;
          path = (case ancestors of None \<Rightarrow> [] | Some a \<Rightarrow> a)
      in
      and_then (exec_insert_comment E i post author newParentID depth ancestorsJSON commentBody now d) (\<lambda>d1.
      and_then (exec_update_post_activity (Post_ID post) now d1) (\<lambda>d2.
      and_then (case parent of
                  None \<Rightarrow> Inr d2
                | Some p \<Rightarrow>
                    and_then (exec_inc_no_replies_direct (ID p) d2) (\<lambda>d3.
                    exec_inc_no_replies path d3)) (\<lambda>d4.
      and_then (exec_insert_posts_comments i (User_ID author) postsCommentsTypeComments d4) (\<lambda>d5.
      and_then (insert_comment_replies path i d5) (\<lambda>d6.
      exec_add_user_no_comments (User_ID author) 1 d6))))))"

text \<open>The first part of \<open>addComment\<close>: loading the parent and building the ancestor path.\<close>

definition load_parent :: "env \<Rightarrow> db \<Rightarrow> uid option \<Rightarrow> error + (Comment option \<times> uid list option)" where
  "load_parent E d parentID =
     (case parentID of
        None \<Rightarrow> Inr (None, None)
      | Some p \<Rightarrow>
          (case GetComment E d p None of
             Inl e \<Rightarrow> Inl e
           | Inr parent \<Rightarrow>
               if Deleted parent
               then Inl (BadRequest ''comment-reply-to-deleted'' ''Cannot reply to a deleted comment.'')
               else if Depth parent = maxCommentDepth E
               then Inl (BadRequest ''comment-max-depth-reached'' ''Cannot reply because match depth is reached.'')
               else Inr (Some parent, Some (Ancestors parent @ [ID parent]))))"

definition addComment ::
  "env \<Rightarrow> db \<Rightarrow> Post \<Rightarrow> User \<Rightarrow> uid option \<Rightarrow> string \<Rightarrow> uid \<Rightarrow> timestamp \<Rightarrow> (error + Comment) \<times> db" where
  "addComment E d post author parentID body0 i now =
     (let commentBody = TruncateUnicodeString E body0 (maxCommentBodyLength E) in
      case load_parent E d parentID of
        Inl e \<Rightarrow> (Inl e, d)
      | Inr (parent, ancestors) \<Rightarrow>
          (case Transact (addComment_tx E post author parent ancestors commentBody i now) d of
             (Some e, d') \<Rightarrow> (Inl e, d')
           | (None, d') \<Rightarrow> (GetComment E d' i None, d')))"

subsection \<open>Save, Delete and ChangeUserGroup\<close>

definition Save :: "env \<Rightarrow> db \<Rightarrow> Comment \<Rightarrow> uid \<Rightarrow> timestamp \<Rightarrow> error option \<times> db \<times> Comment" where
  "Save E d c user now =
     (if Deleted c then (Some errCommentDeleted, d, c)
      else if AuthorID c \<noteq> user then (Some errNotAuthor, d, c)
      else
        (let c1 = c\<lparr>Body := TruncateUnicodeString E (Body c) (maxCommentBodyLength E)\<rparr> in
         case exec_update_body (ID c1) (Body c1) now d of
           Inl e \<Rightarrow> (Some e, d, c1)
         | Inr d' \<Rightarrow> (None, d', c1\<lparr>EditedAt := Some now\<rparr>)))"

text \<open>The \<open>switch g\<close> of \<open>Delete\<close>: the error it returns, or \<open>None\<close> when it falls through.\<close>

definition Delete_switch :: "env \<Rightarrow> db \<Rightarrow> Comment \<Rightarrow> uid \<Rightarrow> UserGroup \<Rightarrow> error option" where
  "Delete_switch E d c user g =
     (case g of
        UserGroupNormal \<Rightarrow> if AuthorID c \<noteq> user then Some errNotAuthor else None
      | UserGroupMods \<Rightarrow>
          (case UserMod E d (CommunityID c) user of
             Inl e \<Rightarrow> Some e
           | Inr is \<Rightarrow> if \<not> is then Some errNotMod else None)
      | UserGroupAdmins \<Rightarrow>
          (case GetUser E d user of
             Inl e \<Rightarrow> Some e
           | Inr u \<Rightarrow> if \<not> Admin u then Some errNotAdmin else None)
      | _ \<Rightarrow> Some errInvalidUserGroup)"

definition Delete_tx :: "Comment \<Rightarrow> uid \<Rightarrow> UserGroup \<Rightarrow> timestamp \<Rightarrow> db \<Rightarrow> error + db" where
  "Delete_tx c user g now d =
     and_then (exec_mark_deleted (ID c) now user g d) (\<lambda>d1.
     and_then (exec_delete_posts_comments (ID c) (AuthorID c) d1) (\<lambda>d2.
     exec_add_user_no_comments (AuthorID c) (- 1) d2))"

definition Delete :: "env \<Rightarrow> db \<Rightarrow> Comment \<Rightarrow> uid \<Rightarrow> UserGroup \<Rightarrow> timestamp \<Rightarrow> error option \<times> db \<times> Comment" where
  "Delete E d c user g now =
     (if Deleted c then (Some errCommentDeleted, d, c)
      else
        (case Delete_switch E d c user g of
           Some e \<Rightarrow> (Some e, d, c)
         | None \<Rightarrow>
             (case Transact (Delete_tx c user g now) d of
                (Some e, d') \<Rightarrow> (Some e, d', c)
              | (None, d') \<Rightarrow>
                  (let c1 = stripDeletedInfo
                              (c\<lparr>DeletedAt := Some now, DeletedBy := Some user, DeletedAs := g\<rparr>)
                   in (None, RemoveAllReportsOfComment d' (ID c1), c1)))))"

definition ChangeUserGroup :: "env \<Rightarrow> db \<Rightarrow> Comment \<Rightarrow> uid \<Rightarrow> UserGroup \<Rightarrow> error option \<times> db \<times> Comment" where
  "ChangeUserGroup E d c author g =
     (if AuthorID c \<noteq> author then (Some errNotAuthor, d, c)
      else if PostedAs c = g then (None, d, c)
      else
        (case (case g of
                 UserGroupNormal \<Rightarrow> None
               | UserGroupMods \<Rightarrow>
                   (case UserMod E d (CommunityID c) author of
                      Inl e \<Rightarrow> Some e
                    | Inr is \<Rightarrow> if \<not> is then Some errNotMod else None)
               | UserGroupAdmins \<Rightarrow>
                   (case GetUser E d author of
                      Inl e \<Rightarrow> Some e
                    | Inr u \<Rightarrow> if \<not> Admin u then Some errNotAdmin else None)
               | _ \<Rightarrow> Some errInvalidUserGroup) of
           Some e \<Rightarrow> (Some e, d, c)
         | None \<Rightarrow>
             (case exec_update_user_group (ID c) g d of
                Inl e \<Rightarrow> (Some e, d, c)
              | Inr d' \<Rightarrow> (None, d', c\<lparr>PostedAs := g\<rparr>))))"

subsection \<open>Vote, DeleteVote and ChangeVote\<close>

definition Vote_tx :: "Comment \<Rightarrow> uid \<Rightarrow> bool \<Rightarrow> db \<Rightarrow> error + db" where
  "Vote_tx c user up d =
     (case exec_insert_vote (ID c) user up d of
        Inl e \<Rightarrow>
          if IsErrDuplicateErr e
          then Inl (BadRequest ''already-voted'' ''You've already voted on the comment.'')
          else Inl e
      | Inr d1 \<Rightarrow>
          if up then exec_update_tally (ID c) 1 1 0 d1
          else exec_update_tally (ID c) (- 1) 0 1 d1)"

definition Vote :: "env \<Rightarrow> db \<Rightarrow> Comment \<Rightarrow> uid \<Rightarrow> bool \<Rightarrow> error option \<times> db \<times> Comment" where
  "Vote E d c user up =
     (if Deleted c then (Some errCommentDeleted, d, c)
      else
        (case IsPostLocked E d (PostID c) of
           Inl e \<Rightarrow> (Some e, d, c)
         | Inr is \<Rightarrow>
             if is then (Some errPostLocked, d, c)
             else
               (case Transact (Vote_tx c user up) d of
                  (Some e, d') \<Rightarrow> (Some e, d', c)
                | (None, d') \<Rightarrow>
                    (let point = (if up then 1 else - 1);
                         c1 = (if up then c\<lparr>Upvotes := Upvotes c + 1\<rparr>
                               else c\<lparr>Downvotes := Downvotes c + 1\<rparr>);
                         c2 = c1\<lparr>Points := Points c1 + point, ViewerVoted := Some True,
                                 ViewerVotedUp := Some up\<rparr>;
                         d2 = (if up \<and> AuthorID c2 \<noteq> user
                               then incrementUserPoints d' (AuthorID c2) 1 else d')
                     in (None, d2, c2)))))"

definition DeleteVote_tx :: "Comment \<Rightarrow> nat \<Rightarrow> bool \<Rightarrow> db \<Rightarrow> error + db" where
  "DeleteVote_tx c n up d =
     and_then (exec_delete_vote n d) (\<lambda>d1.
       if up then exec_update_tally (ID c) (- 1) (- 1) 0 d1
       else exec_update_tally (ID c) 1 0 (- 1) d1)"

definition DeleteVote :: "env \<Rightarrow> db \<Rightarrow> Comment \<Rightarrow> uid \<Rightarrow> error option \<times> db \<times> Comment" where
  "DeleteVote E d c user =
     (if Deleted c then (Some errCommentDeleted, d, c)
      else
        (case IsPostLocked E d (PostID c) of
           Inl e \<Rightarrow> (Some e, d, c)
         | Inr is \<Rightarrow>
             if is then (Some errPostLocked, d, c)
             else
               (case query_vote d (ID c) user of
                  Inl e \<Rightarrow> (Some e, d, c)
                | Inr (n, up) \<Rightarrow>
                    (case Transact (DeleteVote_tx c n up) d of
                       (Some e, d') \<Rightarrow> (Some e, d', c)
                     | (None, d') \<Rightarrow>
                         (let point = (if up then - 1 else 1);
                              c1 = (if up then c\<lparr>Upvotes := Upvotes c - 1\<rparr>
                                    else c\<lparr>Downvotes := Downvotes c - 1\<rparr>);
                              c2 = c1\<lparr>Points := Points c1 + point, ViewerVoted := None,
                                      ViewerVotedUp := None\<rparr>;
                              d2 = (if up \<and> AuthorID c2 \<noteq> user
                                    then incrementUserPoints d' (AuthorID c2) (- 1) else d')
                          in (None, d2, c2))))))"

definition ChangeVote_tx :: "Comment \<Rightarrow> nat \<Rightarrow> bool \<Rightarrow> bool \<Rightarrow> db \<Rightarrow> error + db" where
  "ChangeVote_tx c n dbUp up d =
     and_then (exec_update_vote up n d) (\<lambda>d1.
       if dbUp then exec_update_tally (ID c) (- 2) (- 1) 1 d1
       else exec_update_tally (ID c) 2 1 (- 1) d1)"

definition ChangeVote :: "env \<Rightarrow> db \<Rightarrow> Comment \<Rightarrow> uid \<Rightarrow> bool \<Rightarrow> error option \<times> db \<times> Comment" where
  "ChangeVote E d c user up =
     (if Deleted c then (Some errCommentDeleted, d, c)
      else
        (case IsPostLocked E d (PostID c) of
           Inl e \<Rightarrow> (Some e, d, c)
         | Inr is \<Rightarrow>
             if is then (Some errPostLocked, d, c)
             else
               (case query_vote d (ID c) user of
                  Inl e \<Rightarrow> (Some e, d, c)
                | Inr (n, dbUp) \<Rightarrow>
                    if dbUp = up then (None, d, c)
                    else
                      (case Transact (ChangeVote_tx c n dbUp up) d of
                         (Some e, d') \<Rightarrow> (Some e, d', c)
                       | (None, d') \<Rightarrow>
                           (let points = (if dbUp then - 2 else 2);
                                c1 = (if dbUp
                                      then c\<lparr>Upvotes := Upvotes c - 1, Downvotes := Downvotes c + 1\<rparr>
                                      else c\<lparr>Upvotes := Upvotes c + 1, Downvotes := Downvotes c - 1\<rparr>);
                                c2 = c1\<lparr>Points := Points c1 + points, ViewerVotedUp := Some up\<rparr>;
                                d2 = (if AuthorID c2 \<noteq> user
                                      then incrementUserPoints d' (AuthorID c2) (if dbUp then - 1 else 1)
                                      else d')
                            in (None, d2, c2))))))"

subsection \<open>Reading the result of an operation\<close>

abbreviation returned :: "error option \<times> db \<times> Comment \<Rightarrow> error option" where
  "returned r \<equiv> fst r"

abbreviation store_after :: "error option \<times> db \<times> Comment \<Rightarrow> db" where
  "store_after r \<equiv> fst (snd r)"

abbreviation comment_after :: "error option \<times> db \<times> Comment \<Rightarrow> Comment" where
  "comment_after r \<equiv> snd (snd r)"

definition points_of :: "db \<Rightarrow> uid \<Rightarrow> int" where
  "points_of d u = (case users d u of None \<Rightarrow> 0 | Some r \<Rightarrow> user_points r)"

text \<open>What \<open>stripDeletedInfo\<close> leaves in the fields it clears.\<close>

definition redacted :: "Comment \<Rightarrow> bool" where
  "redacted c =
     (Body c = ''[Deleted comment]'' \<and> AuthorID c = 0 \<and> AuthorUsername c = ''Hidden'' \<and>
      PostedAs c = UserGroupNaN \<and> Author c = None \<and> ViewerVoted c = None \<and>
      ViewerVotedUp c = None)"

text \<open>The fields that place a comment in the tree, and its counters.\<close>

definition same_place_and_counters :: "Comment \<Rightarrow> Comment \<Rightarrow> bool" where
  "same_place_and_counters c c' =
     (ID c' = ID c \<and> ParentID c' = ParentID c \<and> Ancestors c' = Ancestors c \<and>
      Depth c' = Depth c \<and> NumReplies c' = NumReplies c \<and>
      NumRepliesDirect c' = NumRepliesDirect c \<and> Upvotes c' = Upvotes c \<and>
      Downvotes c' = Downvotes c \<and> Points c' = Points c)"

definition row_place_and_counters :: "uid \<Rightarrow> comment_row \<Rightarrow> Comment \<Rightarrow> bool" where
  "row_place_and_counters i r c =
     (ID c = i \<and> ParentID c = col_parent_id r \<and>
      Ancestors c = (case col_ancestors r of None \<Rightarrow> [] | Some a \<Rightarrow> a) \<and>
      Depth c = col_depth r \<and> NumReplies c = col_no_replies r \<and>
      NumRepliesDirect c = col_no_replies_direct r \<and> Upvotes c = col_upvotes r \<and>
      Downvotes c = col_downvotes r \<and> Points c = col_points r)"

definition row_keeps_place_and_counters :: "comment_row \<Rightarrow> comment_row \<Rightarrow> bool" where
  "row_keeps_place_and_counters r r' =
     (col_parent_id r' = col_parent_id r \<and> col_ancestors r' = col_ancestors r \<and>
      col_depth r' = col_depth r \<and> col_no_replies r' = col_no_replies r \<and>
      col_no_replies_direct r' = col_no_replies_direct r \<and> col_upvotes r' = col_upvotes r \<and>
      col_downvotes r' = col_downvotes r \<and> col_points r' = col_points r)"

subsection \<open>A small store\<close>

text \<open>
  One post (id 1) of community 7 with one root comment (id 10) written by user 1; user 2
  is another account. In \<open>ex_db_up\<close> user 2 has upvoted the comment, in \<open>ex_db_gone\<close> the
  comment has been deleted.
\<close>

definition ex_user :: "uid \<Rightarrow> User" where
  "ex_user i = \<lparr>User_ID = i, Username = ''user'', Admin = False\<rparr>"

definition ex_env :: env where
  "ex_env =
     \<lparr>IsPostLocked = (\<lambda>d p. Inr False),
      UserMod = (\<lambda>d c u. Inr False),
      GetUser = (\<lambda>d u. Inr (ex_user u)),
      GetUsersIDs = (\<lambda>d ids. Inr (map ex_user ids)),
      GetMutedUsers = (\<lambda>d u. Inr []),
      TruncateUnicodeString = (\<lambda>s n. take n s),
      maxCommentBodyLength = 20,
      maxCommentDepth = 15,
      default_user_group = UserGroupNormal,
      default_deleted_as = UserGroupNaN\<rparr>"

definition ex_env_no_authors :: env where
  "ex_env_no_authors = ex_env\<lparr>GetUsersIDs := (\<lambda>d ids. Inr [])\<rparr>"

definition ex_row :: comment_row where
  "ex_row =
     \<lparr>col_post_id = 1,
      col_post_public_id = ''p1'',
      col_community_id = 7,
      col_community_name = ''general'',
      col_user_id = 1,
      col_username = ''user'',
      col_user_group = UserGroupNormal,
      col_user_deleted = False,
      col_parent_id = None,
      col_depth = 0,
      col_no_replies = 0,
      col_no_replies_direct = 0,
      col_ancestors = None,
      col_body = ''hello'',
      col_upvotes = 0,
      col_downvotes = 0,
      col_points = 0,
      col_created_at = 100,
      col_edited_at = None,
      col_deleted_at = None,
      col_deleted_by = None,
      col_deleted_as = UserGroupNaN\<rparr>"

definition ex_vote :: vote_row where
  "ex_vote = \<lparr>vote_id = 1, vote_comment_id = 10, vote_user_id = 2, vote_up = True\<rparr>"

definition ex_db :: db where
  "ex_db =
     \<lparr>comments = [10 \<mapsto> ex_row],
      comment_votes = [],
      users = [1 \<mapsto> \<lparr>user_points = 5, user_no_comments = 1\<rparr>,
               2 \<mapsto> \<lparr>user_points = 0, user_no_comments = 0\<rparr>],
      posts = [1 \<mapsto> \<lparr>post_no_comments = 1, post_last_activity_at = 100\<rparr>],
      posts_comments = [(10, 1, 1)],
      comment_replies = [],
      comment_reports = []\<rparr>"

definition ex_db_up :: db where
  "ex_db_up =
     ex_db\<lparr>comments := [10 \<mapsto> ex_row\<lparr>col_upvotes := 1, col_points := 1\<rparr>],
           comment_votes := [ex_vote]\<rparr>"

definition ex_db_gone :: db where
  "ex_db_gone =
     ex_db\<lparr>comments := [10 \<mapsto> ex_row\<lparr>col_body := [], col_deleted_at := Some 200,
                                       col_deleted_by := Some 1, col_deleted_as := UserGroupNormal\<rparr>]\<rparr>"

definition ex_comment :: Comment where
  "ex_comment = scan_row (10, ex_row, None)"

definition ex_comment_up :: Comment where
  "ex_comment_up = scan_row (10, ex_row\<lparr>col_upvotes := 1, col_points := 1\<rparr>, Some (Some ex_vote))"

definition ex_comment_gone :: Comment where
  "ex_comment_gone = stripDeletedInfo (ex_comment\<lparr>DeletedAt := Some 200\<rparr>)"

definition ex_post :: Post where
  "ex_post =
     \<lparr>Post_ID = 1, Post_PublicID = ''p1'', Post_CommunityID = 7,
      Post_CommunityName = ''general'', Post_AuthorID = 1\<rparr>"

text \<open>
  Replies. \<open>ex_reply\<close> is what \<open>addComment\<close> returns when user 2 answers comment 10 of
  \<open>ex_db\<close> with the new id 11, and \<open>ex_root\<close> what it returns for a new root comment with
  the id 12. In \<open>ex_db_tree\<close> comment 20 is a reply to comment 10 and comment 30 is another
  root; \<open>ex_reply_deep\<close> answers comment 20 with the new id 21.
\<close>

definition ex_reply :: Comment where
  "ex_reply =
     (scan_row (11, ex_row\<lparr>col_user_id := 2, col_parent_id := Some 10, col_depth := 1,
                           col_ancestors := Some [10], col_body := ''reply'',
                           col_created_at := 300\<rparr>, None))
     \<lparr>Author := Some (ex_user 2)\<rparr>"

definition ex_root :: Comment where
  "ex_root =
     (scan_row (12, ex_row\<lparr>col_user_id := 2, col_body := ''again'', col_created_at := 300\<rparr>, None))
     \<lparr>Author := Some (ex_user 2)\<rparr>"

definition ex_db_tree :: db where
  "ex_db_tree =
     ex_db\<lparr>comments :=
       [10 \<mapsto> ex_row\<lparr>col_no_replies := 1, col_no_replies_direct := 1\<rparr>,
        20 \<mapsto> ex_row\<lparr>col_user_id := 2, col_parent_id := Some 10, col_depth := 1,
                       col_ancestors := Some [10]\<rparr>,
        30 \<mapsto> ex_row]\<rparr>"

definition ex_reply_deep :: Comment where
  "ex_reply_deep =
     (scan_row (21, ex_row\<lparr>col_parent_id := Some 20, col_depth := 2,
                           col_ancestors := Some [10, 20], col_body := ''deep'',
                           col_created_at := 300\<rparr>, None))
     \<lparr>Author := Some (ex_user 1)\<rparr>"

section \<open>Properties\<close>

subsection \<open>Transactions\<close>

lemma Transact_Inr: "f d = Inr d' \<Longrightarrow> Transact f d = (None, d')"
  by (simp add: Transact_def)

lemma Transact_Inl: "f d = Inl e \<Longrightarrow> Transact f d = (Some e, d)"
  by (simp add: Transact_def)

subsection \<open>The author lookup of a retrieval\<close>

lemma author_loop_found: "fst (author_loop authors found c) = found"
  by (induction authors) auto

text \<open>
  The second loop of \<open>populateCommentAuthors\<close> cannot reach its panic: \<open>found\<close> is true
  when the inner loop ends, whatever the lookup returned.
\<close>

lemma assign_authors_total: "\<exists>cs'. assign_authors authors cs = Inr cs'"
proof (induction cs)
  case Nil
  show ?case by simp
next
  case (Cons c cs)
  then obtain cs' where "assign_authors authors cs = Inr cs'" by blast
  moreover have "fst (author_loop authors True c)" by (simp add: author_loop_found)
  ultimately show ?case by (auto split: prod.splits)
qed

text \<open>
  C2. A retrieval whose batch author lookup returns no record for the author of a
  comment that is not deleted should fail with the integrity error. Evaluated on the small
  store with a lookup that answers with the empty list: \<open>populateCommentAuthors\<close> and
  \<open>GetComment\<close> succeed and hand back the comment with no \<open>Author\<close>.
\<close>

theorem missing_author_is_not_fatal:
  "\<not> Deleted ex_comment
   \<and> GetUsersIDs ex_env_no_authors ex_db [AuthorID ex_comment] = Inr []
   \<and> populateCommentAuthors ex_env_no_authors ex_db [ex_comment] = Inr [ex_comment]
   \<and> GetComment ex_env_no_authors ex_db 10 None = Inr ex_comment
   \<and> Author ex_comment = None"
  by (simp add: ex_env_no_authors_def ex_env_def ex_db_def ex_comment_def scan_row_def ex_row_def
      Deleted_def populateCommentAuthors_def GetComment_def scanComments_def select_comment_def
      stripDeletedInfo_def)

subsection \<open>Deleted comments\<close>

text \<open>
  C3. On a comment observed as deleted, Save, Vote, DeleteVote, ChangeVote and a second
  Delete each return the comment-deleted error and leave the store and the comment in
  memory as they were.
\<close>

theorem deleted_is_final:
  assumes "Deleted c"
  shows "Save E d c user now = (Some errCommentDeleted, d, c)
       \<and> Vote E d c user up = (Some errCommentDeleted, d, c)
       \<and> DeleteVote E d c user = (Some errCommentDeleted, d, c)
       \<and> ChangeVote E d c user up = (Some errCommentDeleted, d, c)
       \<and> Delete E d c user g now = (Some errCommentDeleted, d, c)"
  using assms by (simp add: Save_def Vote_def DeleteVote_def ChangeVote_def Delete_def)

theorem deleted_is_final_witness:
  "Deleted ex_comment_gone
   \<and> Save ex_env ex_db_gone ex_comment_gone 1 300 = (Some errCommentDeleted, ex_db_gone, ex_comment_gone)
   \<and> Vote ex_env ex_db_gone ex_comment_gone 2 True = (Some errCommentDeleted, ex_db_gone, ex_comment_gone)
   \<and> DeleteVote ex_env ex_db_gone ex_comment_gone 2 = (Some errCommentDeleted, ex_db_gone, ex_comment_gone)
   \<and> ChangeVote ex_env ex_db_gone ex_comment_gone 2 False = (Some errCommentDeleted, ex_db_gone, ex_comment_gone)
   \<and> Delete ex_env ex_db_gone ex_comment_gone 1 UserGroupNormal 300 = (Some errCommentDeleted, ex_db_gone, ex_comment_gone)"
proof -
  have h: "Deleted ex_comment_gone"
    by (simp add: ex_comment_gone_def stripDeletedInfo_def Deleted_def)
  show ?thesis
    using h deleted_is_final [OF h, of ex_env ex_db_gone 1 300 True]
      deleted_is_final [OF h, of ex_env ex_db_gone 2 300 True]
      deleted_is_final [OF h, of ex_env ex_db_gone 2 300 False]
      deleted_is_final [OF h, of ex_env ex_db_gone 1 300 True UserGroupNormal]
    by simp
qed

subsection \<open>Authority\<close>

lemma Delete_tx_succeeds: "\<exists>d'. Delete_tx c user g now d = Inr d'"
  by (simp add: Delete_tx_def and_then_def exec_mark_deleted_def exec_delete_posts_comments_def
      exec_add_user_no_comments_def)

lemma Delete_returned:
  assumes "\<not> Deleted c"
  shows "returned (Delete E d c user g now) = Delete_switch E d c user g"
proof -
  obtain d' where "Delete_tx c user g now d = Inr d'"
    using Delete_tx_succeeds by blast
  then have "Transact (Delete_tx c user g now) d = (None, d')"
    by (rule Transact_Inr)
  then show ?thesis
    using assms by (simp add: Delete_def Let_def split: option.splits)
qed

text \<open>
  C9. A deletion request on an active comment succeeds under the self tier exactly when
  the actor is the author, under the moderator tier exactly when \<open>UserMod\<close> answers true
  for the comment's community, under the admin tier exactly when \<open>GetUser\<close> returns the
  actor's account with the admin flag set; every other tier value fails with the
  invalid-user-group error and changes nothing.
\<close>

theorem Delete_authority_matrix:
  assumes "\<not> Deleted c"
  shows "(returned (Delete E d c user UserGroupNormal now) = None \<longleftrightarrow> AuthorID c = user)
       \<and> (returned (Delete E d c user UserGroupMods now) = None
            \<longleftrightarrow> UserMod E d (CommunityID c) user = Inr True)
       \<and> (returned (Delete E d c user UserGroupAdmins now) = None
            \<longleftrightarrow> (\<exists>u. GetUser E d user = Inr u \<and> Admin u))
       \<and> (g \<noteq> UserGroupNormal \<and> g \<noteq> UserGroupMods \<and> g \<noteq> UserGroupAdmins
            \<longrightarrow> Delete E d c user g now = (Some errInvalidUserGroup, d, c))"
proof -
  have 1: "returned (Delete E d c user UserGroupNormal now) = None \<longleftrightarrow> AuthorID c = user"
    using assms by (simp add: Delete_returned Delete_switch_def)
  have 2: "returned (Delete E d c user UserGroupMods now) = None
            \<longleftrightarrow> UserMod E d (CommunityID c) user = Inr True"
    using assms by (auto simp add: Delete_returned Delete_switch_def split: sum.splits)
  have 3: "returned (Delete E d c user UserGroupAdmins now) = None
            \<longleftrightarrow> (\<exists>u. GetUser E d user = Inr u \<and> Admin u)"
    using assms by (auto simp add: Delete_returned Delete_switch_def split: sum.splits)
  have 4: "g \<noteq> UserGroupNormal \<and> g \<noteq> UserGroupMods \<and> g \<noteq> UserGroupAdmins
            \<longrightarrow> Delete E d c user g now = (Some errInvalidUserGroup, d, c)"
    using assms by (cases g) (simp_all add: Delete_def Delete_switch_def)
  from 1 2 3 4 show ?thesis by blast
qed

theorem Delete_authority_matrix_witness:
  "\<not> Deleted ex_comment
   \<and> AuthorID ex_comment = 1
   \<and> returned (Delete ex_env ex_db ex_comment 1 UserGroupNormal 300) = None
   \<and> returned (Delete ex_env ex_db ex_comment 2 UserGroupNormal 300) \<noteq> None
   \<and> returned (Delete ex_env ex_db ex_comment 2 UserGroupMods 300) \<noteq> None
   \<and> returned (Delete ex_env ex_db ex_comment 2 UserGroupAdmins 300) \<noteq> None
   \<and> Delete ex_env ex_db ex_comment 1 (UserGroupOther 9) 300 = (Some errInvalidUserGroup, ex_db, ex_comment)"
proof -
  have a: "\<not> Deleted ex_comment"
    by (simp add: Deleted_def ex_comment_def scan_row_def ex_row_def)
  have b: "AuthorID ex_comment = 1"
    by (simp add: ex_comment_def scan_row_def ex_row_def)
  have c: "UserMod ex_env ex_db (CommunityID ex_comment) 2 = Inr False"
    by (simp add: ex_env_def)
  have e: "GetUser ex_env ex_db 2 = Inr (ex_user 2)" "\<not> Admin (ex_user 2)"
    by (simp_all add: ex_env_def ex_user_def)
  show ?thesis
    using a b c e
      Delete_authority_matrix [OF a, of ex_env ex_db 1 300 "UserGroupOther 9"]
      Delete_authority_matrix [OF a, of ex_env ex_db 2 300 "UserGroupOther 9"]
    by simp
qed

text \<open>
  C10. When the actor is the comment's author and the requested tier is the tier the
  comment is already posted as, \<open>ChangeUserGroup\<close> returns success at once: the result
  does not depend on the moderator or admin lookup, nothing is written, and so the call
  succeeds also when the lookup would deny the tier.
\<close>

theorem ChangeUserGroup_same_tier:
  assumes "AuthorID c = author" and "PostedAs c = g"
  shows "ChangeUserGroup E d c author g = (None, d, c)"
  using assms by (simp add: ChangeUserGroup_def)

theorem ChangeUserGroup_same_tier_witness:
  "AuthorID (ex_comment\<lparr>PostedAs := UserGroupMods\<rparr>) = 1
   \<and> PostedAs (ex_comment\<lparr>PostedAs := UserGroupMods\<rparr>) = UserGroupMods
   \<and> UserMod ex_env ex_db (CommunityID (ex_comment\<lparr>PostedAs := UserGroupMods\<rparr>)) 1 = Inr False
   \<and> ChangeUserGroup ex_env ex_db (ex_comment\<lparr>PostedAs := UserGroupMods\<rparr>) 1 UserGroupMods
       = (None, ex_db, ex_comment\<lparr>PostedAs := UserGroupMods\<rparr>)"
proof -
  have a: "AuthorID (ex_comment\<lparr>PostedAs := UserGroupMods\<rparr>) = 1"
    by (simp add: ex_comment_def scan_row_def ex_row_def)
  have b: "PostedAs (ex_comment\<lparr>PostedAs := UserGroupMods\<rparr>) = UserGroupMods"
    by simp
  have c: "UserMod ex_env ex_db (CommunityID (ex_comment\<lparr>PostedAs := UserGroupMods\<rparr>)) 1 = Inr False"
    by (simp add: ex_env_def)
  show ?thesis
    using a b c ChangeUserGroup_same_tier [OF a b, of ex_env ex_db] by simp
qed

subsection \<open>Votes\<close>

lemma votes_of_dup: "votes_of d i u \<noteq> [] \<Longrightarrow> exec_insert_vote i u up d = Inl ErrDuplicateKey"
  by (simp add: exec_insert_vote_def)

text \<open>
  C8. When the user already has a vote record on the comment (the comment active, the
  post unlocked), another call to \<open>Vote\<close> is rejected with the already-voted error, and the
  store and the comment in memory, hence the three tallies, are unchanged.
\<close>

theorem Vote_twice_rejected:
  assumes "\<not> Deleted c" and "IsPostLocked E d (PostID c) = Inr False"
    and "votes_of d (ID c) user \<noteq> []"
  shows "Vote E d c user up
         = (Some (BadRequest ''already-voted'' ''You've already voted on the comment.''), d, c)"
proof -
  have "Vote_tx c user up d = Inl (BadRequest ''already-voted'' ''You've already voted on the comment.'')"
    using assms(3) by (simp add: Vote_tx_def votes_of_dup IsErrDuplicateErr_def)
  then have "Transact (Vote_tx c user up) d
             = (Some (BadRequest ''already-voted'' ''You've already voted on the comment.''), d)"
    by (rule Transact_Inl)
  then show ?thesis
    using assms(1,2) by (simp add: Vote_def)
qed

theorem Vote_twice_rejected_witness:
  "\<not> Deleted ex_comment_up \<and> IsPostLocked ex_env ex_db_up (PostID ex_comment_up) = Inr False
   \<and> votes_of ex_db_up (ID ex_comment_up) 2 = [ex_vote]
   \<and> Vote ex_env ex_db_up ex_comment_up 2 False
       = (Some (BadRequest ''already-voted'' ''You've already voted on the comment.''), ex_db_up, ex_comment_up)"
proof -
  have a: "\<not> Deleted ex_comment_up"
    by (simp add: Deleted_def ex_comment_up_def scan_row_def ex_row_def)
  have b: "IsPostLocked ex_env ex_db_up (PostID ex_comment_up) = Inr False"
    by (simp add: ex_env_def)
  have c: "votes_of ex_db_up (ID ex_comment_up) 2 = [ex_vote]"
    by (simp add: votes_of_def ex_db_up_def ex_db_def ex_comment_up_def scan_row_def ex_vote_def)
  then have c': "votes_of ex_db_up (ID ex_comment_up) 2 \<noteq> []" by simp
  show ?thesis
    using a b c Vote_twice_rejected [OF a b c', of False] by simp
qed

lemma users_update_comments [simp]: "users (update_comments P f d) = users d"
  by (simp add: update_comments_def)

lemma comment_votes_update_comments [simp]: "comment_votes (update_comments P f d) = comment_votes d"
  by (simp add: update_comments_def)

lemma comments_update_comments:
  "comments (update_comments P f d) k = (case comments d k of None \<Rightarrow> None | Some r \<Rightarrow> if P k r then Some (f r) else Some r)"
  by (simp add: update_comments_def)

lemma exec_update_tally_Inr:
  "exec_update_tally i p a b d = Inr d' \<Longrightarrow> users d' = users d \<and> comment_votes d' = comment_votes d"
  by (auto simp: exec_update_tally_def)

lemma Vote_tx_users: "Vote_tx c user up d = Inr d' \<Longrightarrow> users d' = users d"
  by (auto simp: Vote_tx_def exec_insert_vote_def exec_update_tally_def split: sum.splits if_splits)

lemma DeleteVote_tx_users: "DeleteVote_tx c n up d = Inr d' \<Longrightarrow> users d' = users d"
  by (auto simp: DeleteVote_tx_def and_then_def exec_delete_vote_def exec_update_tally_def split: sum.splits if_splits)

lemma ChangeVote_tx_users: "ChangeVote_tx c n dbUp up d = Inr d' \<Longrightarrow> users d' = users d"
  by (auto simp: ChangeVote_tx_def and_then_def exec_update_vote_def exec_update_tally_def split: sum.splits if_splits)

lemma points_of_same_users: "users d' = users d \<Longrightarrow> points_of d' u = points_of d u"
  by (simp add: points_of_def)

lemma points_of_incrementUserPoints:
  "users d' = users d \<Longrightarrow> users d u \<noteq> None \<Longrightarrow>
   points_of (incrementUserPoints d' u n) u = points_of d u + n"
  by (auto simp: points_of_def incrementUserPoints_def)

lemma Transact_cases:
  obtains (fail) e where "f d = Inl e" "Transact f d = (Some e, d)"
  | (ok) d' where "f d = Inr d'" "Transact f d = (None, d')"
  by (cases "f d") (auto simp: Transact_def)

lemma Vote_points:
  assumes "AuthorID c \<noteq> user" and "users d (AuthorID c) \<noteq> None"
    and "returned (Vote E d c user up) = None"
  shows "points_of (store_after (Vote E d c user up)) (AuthorID c)
         = points_of d (AuthorID c) + (if up then 1 else 0)"
proof (cases rule: Transact_cases [of "Vote_tx c user up" d])
  case (fail e)
  with assms(3) show ?thesis
    by (auto simp: Vote_def split: if_splits sum.splits)
next
  case (ok d')
  have u: "users d' = users d" using ok(1) by (rule Vote_tx_users)
  have "store_after (Vote E d c user up)
        = (if up then incrementUserPoints d' (AuthorID c) 1 else d')"
    using assms(1,3) ok(2) by (auto simp: Vote_def Let_def split: if_splits sum.splits)
  then show ?thesis
    using assms(2) u points_of_same_users [OF u, of "AuthorID c"]
    by (simp add: points_of_incrementUserPoints)
qed

lemma DeleteVote_points:
  assumes "AuthorID c \<noteq> user" and "users d (AuthorID c) \<noteq> None"
    and "query_vote d (ID c) user = Inr (n, dbUp)"
    and "returned (DeleteVote E d c user) = None"
  shows "points_of (store_after (DeleteVote E d c user)) (AuthorID c)
         = points_of d (AuthorID c) + (if dbUp then - 1 else 0)"
proof (cases rule: Transact_cases [of "DeleteVote_tx c n dbUp" d])
  case (fail e)
  with assms(3,4) show ?thesis
    by (auto simp: DeleteVote_def split: if_splits sum.splits)
next
  case (ok d')
  have u: "users d' = users d" using ok(1) by (rule DeleteVote_tx_users)
  have "store_after (DeleteVote E d c user)
        = (if dbUp then incrementUserPoints d' (AuthorID c) (- 1) else d')"
    using assms(1,3,4) ok(2) by (auto simp: DeleteVote_def Let_def split: if_splits sum.splits)
  then show ?thesis
    using assms(2) u points_of_same_users [OF u, of "AuthorID c"]
    by (simp add: points_of_incrementUserPoints)
qed

lemma ChangeVote_points:
  assumes "AuthorID c \<noteq> user" and "users d (AuthorID c) \<noteq> None"
    and "query_vote d (ID c) user = Inr (n, dbUp)"
    and "dbUp \<noteq> up"
    and "returned (ChangeVote E d c user up) = None"
  shows "points_of (store_after (ChangeVote E d c user up)) (AuthorID c)
         = points_of d (AuthorID c) + (if up then 1 else - 1)"
proof (cases rule: Transact_cases [of "ChangeVote_tx c n dbUp up" d])
  case (fail e)
  with assms(3,4,5) show ?thesis
    by (auto simp: ChangeVote_def split: if_splits sum.splits)
next
  case (ok d')
  have u: "users d' = users d" using ok(1) by (rule ChangeVote_tx_users)
  have "store_after (ChangeVote E d c user up)
        = incrementUserPoints d' (AuthorID c) (if dbUp then - 1 else 1)"
    using assms(1,3,4,5) ok(2) by (auto simp: ChangeVote_def Let_def split: if_splits sum.splits)
  then show ?thesis
    using assms(2,4) u by (auto simp add: points_of_incrementUserPoints)
qed

text \<open>
  C1, as the code has it. For a successful Vote, DeleteVote or ChangeVote whose actor is
  not the comment's author (the author having a row in \<open>users\<close>), the author's reputation
  points change by: +1 for a new upvote and 0 for a new downvote; -1 when an upvote is
  retracted and 0 when a downvote is retracted, the reverse of what the vote had
  contributed; +1 when a downvote is flipped to an upvote and -1 when an upvote is flipped
  to a downvote.
\<close>

theorem vote_reputation_delta:
  assumes "AuthorID c \<noteq> user" and "users d (AuthorID c) \<noteq> None"
  shows "(returned (Vote E d c user up) = None \<longrightarrow>
            points_of (store_after (Vote E d c user up)) (AuthorID c)
            = points_of d (AuthorID c) + (if up then 1 else 0))
       \<and> (query_vote d (ID c) user = Inr (n, dbUp) \<and> returned (DeleteVote E d c user) = None \<longrightarrow>
            points_of (store_after (DeleteVote E d c user)) (AuthorID c)
            = points_of d (AuthorID c) + (if dbUp then - 1 else 0))
       \<and> (query_vote d (ID c) user = Inr (n, dbUp) \<and> dbUp \<noteq> up
            \<and> returned (ChangeVote E d c user up) = None \<longrightarrow>
            points_of (store_after (ChangeVote E d c user up)) (AuthorID c)
            = points_of d (AuthorID c) + (if up then 1 else - 1))"
proof (intro conjI impI)
  assume "returned (Vote E d c user up) = None"
  with assms show "points_of (store_after (Vote E d c user up)) (AuthorID c)
            = points_of d (AuthorID c) + (if up then 1 else 0)"
    by (rule Vote_points)
next
  assume "query_vote d (ID c) user = Inr (n, dbUp) \<and> returned (DeleteVote E d c user) = None"
  with assms show "points_of (store_after (DeleteVote E d c user)) (AuthorID c)
            = points_of d (AuthorID c) + (if dbUp then - 1 else 0)"
    by (simp add: DeleteVote_points)
next
  assume "query_vote d (ID c) user = Inr (n, dbUp) \<and> dbUp \<noteq> up
            \<and> returned (ChangeVote E d c user up) = None"
  with assms show "points_of (store_after (ChangeVote E d c user up)) (AuthorID c)
            = points_of d (AuthorID c) + (if up then 1 else - 1)"
    by (simp add: ChangeVote_points)
qed


lemmas ex_defs = ex_env_def ex_env_no_authors_def ex_row_def ex_vote_def ex_db_def ex_db_up_def ex_db_gone_def
  ex_comment_def ex_comment_up_def ex_comment_gone_def ex_post_def ex_user_def scan_row_def

lemmas op_defs = Vote_def Vote_tx_def DeleteVote_def DeleteVote_tx_def ChangeVote_def ChangeVote_tx_def
  Transact_def and_then_def exec_insert_vote_def exec_update_tally_def exec_delete_vote_def exec_update_vote_def
  votes_of_def query_vote_def update_comments_def incrementUserPoints_def Deleted_def points_of_def
  IsErrDuplicateErr_def next_vote_id_def

text \<open>
  C1, as the claim states it, asks for -1 on a new downvote. On the small store user 2
  downvotes the comment of user 1: the vote succeeds and the author's points stay at 5.
\<close>

theorem downvote_leaves_reputation:
  "returned (Vote ex_env ex_db ex_comment 2 False) = None
   \<and> AuthorID ex_comment \<noteq> 2
   \<and> points_of ex_db (AuthorID ex_comment) = 5
   \<and> points_of (store_after (Vote ex_env ex_db ex_comment 2 False)) (AuthorID ex_comment) = 5
   \<and> points_of (store_after (Vote ex_env ex_db ex_comment 2 False)) (AuthorID ex_comment)
       \<noteq> points_of ex_db (AuthorID ex_comment) - 1"
  by (simp add: ex_defs op_defs)

theorem vote_reputation_delta_witness:
  "AuthorID ex_comment \<noteq> 2 \<and> AuthorID ex_comment_up \<noteq> 2
   \<and> points_of ex_db (AuthorID ex_comment) = 5
   \<and> points_of ex_db_up (AuthorID ex_comment_up) = 5
   \<and> returned (Vote ex_env ex_db ex_comment 2 True) = None
   \<and> points_of (store_after (Vote ex_env ex_db ex_comment 2 True)) (AuthorID ex_comment) = 6
   \<and> returned (Vote ex_env ex_db ex_comment 2 False) = None
   \<and> points_of (store_after (Vote ex_env ex_db ex_comment 2 False)) (AuthorID ex_comment) = 5
   \<and> query_vote ex_db_up (ID ex_comment_up) 2 = Inr (1, True)
   \<and> returned (DeleteVote ex_env ex_db_up ex_comment_up 2) = None
   \<and> points_of (store_after (DeleteVote ex_env ex_db_up ex_comment_up 2)) (AuthorID ex_comment_up) = 4
   \<and> returned (ChangeVote ex_env ex_db_up ex_comment_up 2 False) = None
   \<and> points_of (store_after (ChangeVote ex_env ex_db_up ex_comment_up 2 False)) (AuthorID ex_comment_up) = 4"
proof -
  have a: "AuthorID ex_comment \<noteq> 2" "AuthorID ex_comment_up \<noteq> 2"
    by (simp_all add: ex_comment_def ex_comment_up_def scan_row_def ex_row_def)
  have b: "users ex_db (AuthorID ex_comment) \<noteq> None" "users ex_db_up (AuthorID ex_comment_up) \<noteq> None"
    by (simp_all add: ex_comment_def ex_comment_up_def scan_row_def ex_row_def ex_db_def ex_db_up_def)
  have p: "points_of ex_db (AuthorID ex_comment) = 5" "points_of ex_db_up (AuthorID ex_comment_up) = 5"
    by (simp_all add: points_of_def ex_comment_def ex_comment_up_def scan_row_def ex_row_def
        ex_db_def ex_db_up_def)
  have q: "query_vote ex_db_up (ID ex_comment_up) 2 = Inr (1, True)"
    by (simp add: query_vote_def votes_of_def ex_db_up_def ex_db_def ex_comment_up_def scan_row_def
        ex_vote_def)
  have r: "returned (Vote ex_env ex_db ex_comment 2 True) = None"
    "returned (Vote ex_env ex_db ex_comment 2 False) = None"
    "returned (DeleteVote ex_env ex_db_up ex_comment_up 2) = None"
    "returned (ChangeVote ex_env ex_db_up ex_comment_up 2 False) = None"
    by (simp_all add: ex_defs op_defs)
  show ?thesis
    using a p q r
      vote_reputation_delta [OF a(1) b(1), of ex_env True 1 True]
      vote_reputation_delta [OF a(1) b(1), of ex_env False 1 True]
      vote_reputation_delta [OF a(2) b(2), of ex_env False 1 True]
    by simp
qed

lemma votes_of_flip:
  "votes_of (d\<lparr>comment_votes := map (\<lambda>v. if vote_id v = n then v\<lparr>vote_up := up\<rparr> else v) (comment_votes d)\<rparr>) i u
   = map (\<lambda>v. if vote_id v = n then v\<lparr>vote_up := up\<rparr> else v) (votes_of d i u)"
proof -
  have "filter (\<lambda>v. vote_comment_id v = i \<and> vote_user_id v = u)
          (map (\<lambda>v. if vote_id v = n then v\<lparr>vote_up := up\<rparr> else v) vs)
        = map (\<lambda>v. if vote_id v = n then v\<lparr>vote_up := up\<rparr> else v)
            (filter (\<lambda>v. vote_comment_id v = i \<and> vote_user_id v = u) vs)" for vs :: "vote_row list"
    by (induction vs) auto
  then show ?thesis by (simp add: votes_of_def)
qed

lemma votes_of_update_comments [simp]: "votes_of (update_comments P f d) i u = votes_of d i u"
  by (simp add: votes_of_def)

lemma query_vote_flip:
  assumes "query_vote d i u = Inr (n, dbUp)"
  shows "query_vote (update_comments P f
           (d\<lparr>comment_votes := map (\<lambda>v. if vote_id v = n then v\<lparr>vote_up := up\<rparr> else v) (comment_votes d)\<rparr>)) i u
         = Inr (n, up)"
  using assms by (auto simp: query_vote_def votes_of_flip split: list.splits)

lemma comments_update_one:
  "comments (update_comments (\<lambda>k r. k = i) f d) = (comments d)(i := map_option f (comments d i))"
  by (auto simp: update_comments_def fun_eq_iff split: option.splits)

lemma ChangeVote_tx_eq:
  "ChangeVote_tx c n dbUp up d
   = Inr (update_comments (\<lambda>k r. k = ID c)
            (\<lambda>r. r\<lparr>col_points := col_points r + (if dbUp then - 2 else 2),
                   col_upvotes := col_upvotes r + (if dbUp then - 1 else 1),
                   col_downvotes := col_downvotes r + (if dbUp then 1 else - 1)\<rparr>)
            (d\<lparr>comment_votes := map (\<lambda>v. if vote_id v = n then v\<lparr>vote_up := up\<rparr> else v) (comment_votes d)\<rparr>))"
  by (simp add: ChangeVote_tx_def and_then_def exec_update_vote_def exec_update_tally_def)

lemma ChangeVote_flip_result:
  assumes "\<not> Deleted c" and "IsPostLocked E d (PostID c) = Inr False"
    and "query_vote d (ID c) user = Inr (n, dbUp)" and "dbUp \<noteq> up"
  shows "ChangeVote E d c user up
         = (None,
            (let d' = update_comments (\<lambda>k r. k = ID c)
                        (\<lambda>r. r\<lparr>col_points := col_points r + (if dbUp then - 2 else 2),
                               col_upvotes := col_upvotes r + (if dbUp then - 1 else 1),
                               col_downvotes := col_downvotes r + (if dbUp then 1 else - 1)\<rparr>)
                        (d\<lparr>comment_votes := map (\<lambda>v. if vote_id v = n then v\<lparr>vote_up := up\<rparr> else v) (comment_votes d)\<rparr>)
             in if AuthorID c \<noteq> user then incrementUserPoints d' (AuthorID c) (if dbUp then - 1 else 1) else d'),
            c\<lparr>Upvotes := Upvotes c + (if dbUp then - 1 else 1),
              Downvotes := Downvotes c + (if dbUp then 1 else - 1),
              Points := Points c + (if dbUp then - 2 else 2),
              ViewerVotedUp := Some up\<rparr>)"
  using assms
  by (simp add: ChangeVote_def Transact_Inr [OF ChangeVote_tx_eq] Let_def)

lemma comments_incrementUserPoints [simp]: "comments (incrementUserPoints d u n) = comments d"
  by (simp add: incrementUserPoints_def split: option.splits)

lemma query_vote_incrementUserPoints [simp]: "query_vote (incrementUserPoints d u n) i v = query_vote d i v"
  by (simp add: incrementUserPoints_def query_vote_def votes_of_def split: option.splits)

text \<open>
  C7. For a user who holds a vote record on an active comment of an unlocked post:
  \<open>ChangeVote\<close> with the recorded direction returns success and changes nothing;
  \<open>ChangeVote\<close> with the other direction succeeds, the record then carries the new
  direction, the point total moves by 2 towards it and one count moves between the upvote
  and the downvote column, in memory and in the comment's row, and no other row of
  \<open>comments\<close> changes.
\<close>

theorem ChangeVote_flips:
  assumes "\<not> Deleted c" and "IsPostLocked E d (PostID c) = Inr False"
    and "query_vote d (ID c) user = Inr (n, dbUp)"
  shows "(dbUp = up \<longrightarrow> ChangeVote E d c user up = (None, d, c))
       \<and> (dbUp \<noteq> up \<longrightarrow>
            returned (ChangeVote E d c user up) = None
          \<and> query_vote (store_after (ChangeVote E d c user up)) (ID c) user = Inr (n, up)
          \<and> Upvotes (comment_after (ChangeVote E d c user up)) = Upvotes c + (if up then 1 else - 1)
          \<and> Downvotes (comment_after (ChangeVote E d c user up)) = Downvotes c - (if up then 1 else - 1)
          \<and> Points (comment_after (ChangeVote E d c user up)) = Points c + (if up then 2 else - 2)
          \<and> comments (store_after (ChangeVote E d c user up))
              = (comments d)(ID c := map_option
                   (\<lambda>r. r\<lparr>col_points := col_points r + (if up then 2 else - 2),
                          col_upvotes := col_upvotes r + (if up then 1 else - 1),
                          col_downvotes := col_downvotes r - (if up then 1 else - 1)\<rparr>)
                   (comments d (ID c))))"
proof (intro conjI impI)
  assume "dbUp = up"
  with assms show "ChangeVote E d c user up = (None, d, c)"
    by (simp add: ChangeVote_def)
next
  assume ne: "dbUp \<noteq> up"
  note res = ChangeVote_flip_result [OF assms ne, of]
  show "returned (ChangeVote E d c user up) = None"
    by (simp add: res)
  show "query_vote (store_after (ChangeVote E d c user up)) (ID c) user = Inr (n, up)"
    using query_vote_flip [OF assms(3)] by (simp add: res Let_def)
  show "Upvotes (comment_after (ChangeVote E d c user up)) = Upvotes c + (if up then 1 else - 1)"
    using ne by (simp add: res)
  show "Downvotes (comment_after (ChangeVote E d c user up)) = Downvotes c - (if up then 1 else - 1)"
    using ne by (simp add: res)
  show "Points (comment_after (ChangeVote E d c user up)) = Points c + (if up then 2 else - 2)"
    using ne by (simp add: res)
  show "comments (store_after (ChangeVote E d c user up))
              = (comments d)(ID c := map_option
                   (\<lambda>r. r\<lparr>col_points := col_points r + (if up then 2 else - 2),
                          col_upvotes := col_upvotes r + (if up then 1 else - 1),
                          col_downvotes := col_downvotes r - (if up then 1 else - 1)\<rparr>)
                   (comments d (ID c)))"
    using ne by (auto simp add: res Let_def comments_update_one)
qed

theorem ChangeVote_flips_witness:
  "\<not> Deleted ex_comment_up \<and> IsPostLocked ex_env ex_db_up (PostID ex_comment_up) = Inr False
   \<and> query_vote ex_db_up (ID ex_comment_up) 2 = Inr (1, True)
   \<and> Upvotes ex_comment_up = 1 \<and> Downvotes ex_comment_up = 0 \<and> Points ex_comment_up = 1
   \<and> ChangeVote ex_env ex_db_up ex_comment_up 2 True = (None, ex_db_up, ex_comment_up)
   \<and> returned (ChangeVote ex_env ex_db_up ex_comment_up 2 False) = None
   \<and> query_vote (store_after (ChangeVote ex_env ex_db_up ex_comment_up 2 False)) (ID ex_comment_up) 2
       = Inr (1, False)
   \<and> Upvotes (comment_after (ChangeVote ex_env ex_db_up ex_comment_up 2 False)) = 0
   \<and> Downvotes (comment_after (ChangeVote ex_env ex_db_up ex_comment_up 2 False)) = 1
   \<and> Points (comment_after (ChangeVote ex_env ex_db_up ex_comment_up 2 False)) = - 1"
proof -
  have a: "\<not> Deleted ex_comment_up"
    by (simp add: Deleted_def ex_comment_up_def scan_row_def ex_row_def)
  have b: "IsPostLocked ex_env ex_db_up (PostID ex_comment_up) = Inr False"
    by (simp add: ex_env_def)
  have q: "query_vote ex_db_up (ID ex_comment_up) 2 = Inr (1, True)"
    by (simp add: query_vote_def votes_of_def ex_db_up_def ex_db_def ex_comment_up_def scan_row_def
        ex_vote_def)
  have t: "Upvotes ex_comment_up = 1" "Downvotes ex_comment_up = 0" "Points ex_comment_up = 1"
    by (simp_all add: ex_comment_up_def scan_row_def ex_row_def)
  show ?thesis
    using a b q t ChangeVote_flips [OF a b q, of True] ChangeVote_flips [OF a b q, of False]
    by simp
qed

subsection \<open>What a retrieval returns\<close>

lemma mute_loop_fields: "mute_loop ms c = Inr c' \<Longrightarrow> c' = c\<lparr>IsAuthorMuted := IsAuthorMuted c'\<rparr>"
  by (induction ms) (auto split: option.splits if_splits)

lemma mute_all_fields:
  "mute_all ms cs = Inr cs' \<Longrightarrow> list_all2 (\<lambda>c c'. c' = c\<lparr>IsAuthorMuted := IsAuthorMuted c'\<rparr>) cs cs'"
proof (induction cs arbitrary: cs')
  case Nil
  then show ?case by simp
next
  case (Cons c cs)
  then show ?case
    by (auto split: sum.splits dest: mute_loop_fields)
qed

lemma author_loop_fields:
  "snd (author_loop authors found c) = c\<lparr>Author := Author (snd (author_loop authors found c))\<rparr>"
  by (induction authors) auto

lemma assign_authors_fields:
  "assign_authors authors cs = Inr cs' \<Longrightarrow> list_all2 (\<lambda>c c'. c' = c\<lparr>Author := Author c'\<rparr>) cs cs'"
proof (induction cs arbitrary: cs')
  case Nil
  then show ?case by simp
next
  case (Cons c cs)
  obtain f c1 where al: "author_loop authors True c = (f, c1)"
    by (cases "author_loop authors True c")
  have c1: "c1 = c\<lparr>Author := Author c1\<rparr>"
    using author_loop_fields [of authors True c] al by simp
  from Cons.prems al obtain cs1 where
    "assign_authors authors cs = Inr cs1" "cs' = c1 # cs1"
    by (auto split: if_splits sum.splits)
  with Cons.IH c1 show ?case by simp
qed

lemma populateCommentAuthors_fields:
  "populateCommentAuthors E d cs = Inr cs' \<Longrightarrow> list_all2 (\<lambda>c c'. c' = c\<lparr>Author := Author c'\<rparr>) cs cs'"
  by (auto simp: populateCommentAuthors_def Let_def list_all2_same split: if_splits sum.splits
      dest: assign_authors_fields)

lemma scanComments_shape:
  assumes "scanComments E d rows viewer = Inr out"
  shows "list_all2 (\<lambda>x c. \<exists>a m. c = stripDeletedInfo ((scan_row x)\<lparr>Author := a, IsAuthorMuted := m\<rparr>)) rows out"
proof -
  from assms obtain cs1 cs2 where
    m: "(case viewer of None \<Rightarrow> Inr (map scan_row rows)
         | Some u \<Rightarrow> (case GetMutedUsers E d u of Inl e \<Rightarrow> Inl e | Inr mutes \<Rightarrow> mute_all mutes (map scan_row rows))) = Inr cs1"
    and p: "populateCommentAuthors E d cs1 = Inr cs2"
    and o: "out = map stripDeletedInfo cs2"
    by (auto simp: scanComments_def Let_def split: if_splits sum.splits)
  have 1: "list_all2 (\<lambda>c c'. c' = c\<lparr>IsAuthorMuted := IsAuthorMuted c'\<rparr>) (map scan_row rows) cs1"
    using m by (auto simp: list_all2_same split: option.splits sum.splits dest: mute_all_fields)
  have 2: "list_all2 (\<lambda>c c'. c' = c\<lparr>Author := Author c'\<rparr>) cs1 cs2"
    using p by (rule populateCommentAuthors_fields)
  have 3: "list_all2 (\<lambda>c c'. c' = stripDeletedInfo c) cs2 out"
    using o by (simp add: list_all2_conv_all_nth)
  show ?thesis
  proof (rule list_all2_all_nthI)
    show "length rows = length out"
      using 1 2 3 by (auto dest!: list_all2_lengthD)
  next
    fix k assume k: "k < length rows"
    have l: "length cs1 = length rows" "length cs2 = length rows"
      using 1 2 by (auto dest!: list_all2_lengthD)
    define c0 where "c0 = scan_row (rows ! k)"
    define c1 where "c1 = cs1 ! k"
    define c2 where "c2 = cs2 ! k"
    have e1: "c1 = c0\<lparr>IsAuthorMuted := IsAuthorMuted c1\<rparr>"
      using list_all2_nthD [OF 1, of k] k by (simp add: c0_def c1_def)
    have e2: "c2 = c1\<lparr>Author := Author c2\<rparr>"
      using list_all2_nthD [OF 2, of k] k l by (simp add: c1_def c2_def)
    have e3: "out ! k = stripDeletedInfo c2"
      using list_all2_nthD [OF 3, of k] k l by (simp add: c2_def)
    have "c2 = c0\<lparr>Author := Author c2, IsAuthorMuted := IsAuthorMuted c1\<rparr>"
      by (subst e2, subst e1) simp
    then have "out ! k = stripDeletedInfo (c0\<lparr>Author := Author c2, IsAuthorMuted := IsAuthorMuted c1\<rparr>)"
      using e3 by simp
    then show "\<exists>a m. out ! k = stripDeletedInfo ((scan_row (rows ! k))\<lparr>Author := a, IsAuthorMuted := m\<rparr>)"
      unfolding c0_def by blast
  qed
qed

lemma GetComment_shape:
  assumes "GetComment E d i viewer = Inr c"
  shows "\<exists>r j a m. comments d i = Some r
          \<and> c = stripDeletedInfo ((scan_row (i, r, j))\<lparr>Author := a, IsAuthorMuted := m\<rparr>)"
proof -
  from assms obtain out where s: "scanComments E d (select_comment d i viewer) viewer = Inr (c # out)"
    by (auto simp: GetComment_def split: sum.splits list.splits)
  from scanComments_shape [OF s] obtain x xs a m where
    x: "select_comment d i viewer = x # xs"
    and c: "c = stripDeletedInfo ((scan_row x)\<lparr>Author := a, IsAuthorMuted := m\<rparr>)"
    by (auto simp: list_all2_Cons2)
  from x obtain r j where "comments d i = Some r" "x = (i, r, j)"
    by (auto simp: select_comment_def split: option.splits list.splits)
  with c show ?thesis by blast
qed

lemma stripDeletedInfo_redacted: "Deleted c \<Longrightarrow> redacted (stripDeletedInfo c)"
  by (simp add: redacted_def stripDeletedInfo_def)

lemma stripDeletedInfo_same_place: "same_place_and_counters c (stripDeletedInfo c)"
  by (simp add: same_place_and_counters_def stripDeletedInfo_def)

lemma Deleted_stripDeletedInfo [simp]: "Deleted (stripDeletedInfo c) = Deleted c"
  by (simp add: stripDeletedInfo_def Deleted_def)

lemma scanned_comment:
  assumes "c = stripDeletedInfo ((scan_row (i, r, j))\<lparr>Author := a, IsAuthorMuted := m\<rparr>)"
  shows "(Deleted c \<longrightarrow> redacted c) \<and> row_place_and_counters i r c \<and> DeletedAt c = col_deleted_at r"
proof (intro conjI impI)
  assume "Deleted c"
  then have "Deleted ((scan_row (i, r, j))\<lparr>Author := a, IsAuthorMuted := m\<rparr>)"
    by (simp add: assms)
  then show "redacted c"
    unfolding assms by (rule stripDeletedInfo_redacted)
next
  show "row_place_and_counters i r c"
    by (simp add: assms row_place_and_counters_def stripDeletedInfo_def scan_row_def)
next
  show "DeletedAt c = col_deleted_at r"
    by (simp add: assms stripDeletedInfo_def scan_row_def)
qed

lemma scanComments_redacts:
  assumes "scanComments E d rows viewer = Inr cs"
  shows "list_all2 (\<lambda>x c. (Deleted c \<longrightarrow> redacted c) \<and> row_place_and_counters (fst x) (fst (snd x)) c) rows cs"
proof (rule list_all2_mono [OF scanComments_shape [OF assms]])
  fix x c
  assume "\<exists>a m. c = stripDeletedInfo ((scan_row x)\<lparr>Author := a, IsAuthorMuted := m\<rparr>)"
  then obtain a m where "c = stripDeletedInfo ((scan_row (fst x, fst (snd x), snd (snd x)))\<lparr>Author := a, IsAuthorMuted := m\<rparr>)"
    by auto
  from scanned_comment [OF this]
  show "(Deleted c \<longrightarrow> redacted c) \<and> row_place_and_counters (fst x) (fst (snd x)) c"
    by simp
qed

lemma GetComment_redacts:
  assumes "GetComment E d i viewer = Inr c"
  shows "(Deleted c \<longrightarrow> redacted c)
         \<and> (\<exists>r. comments d i = Some r \<and> row_place_and_counters i r c \<and> DeletedAt c = col_deleted_at r)"
proof -
  from GetComment_shape [OF assms] obtain r j a m where
    r: "comments d i = Some r"
    and c: "c = stripDeletedInfo ((scan_row (i, r, j))\<lparr>Author := a, IsAuthorMuted := m\<rparr>)"
    by blast
  from scanned_comment [OF c] r show ?thesis by blast
qed

lemma comments_update_user [simp]: "comments (update_user u f d) = comments d"
  by (simp add: update_user_def split: option.splits)

lemma comments_RemoveAllReportsOfComment [simp]: "comments (RemoveAllReportsOfComment d i) = comments d"
  by (simp add: RemoveAllReportsOfComment_def)

lemma Delete_tx_eq:
  "Delete_tx c user g now d
   = Inr (update_user (AuthorID c) (\<lambda>r. r\<lparr>user_no_comments := user_no_comments r + - 1\<rparr>)
           ((update_comments (\<lambda>k r. k = ID c)
              (\<lambda>r. r\<lparr>col_body := [], col_deleted_at := Some now, col_deleted_by := Some user,
                     col_deleted_as := g\<rparr>) d)
            \<lparr>posts_comments := filter (\<lambda>x. \<not> (fst x = ID c \<and> fst (snd x) = AuthorID c)) (posts_comments d)\<rparr>))"
  by (simp add: Delete_tx_def and_then_def exec_mark_deleted_def exec_delete_posts_comments_def
      exec_add_user_no_comments_def update_comments_def)

lemma Delete_success:
  assumes "returned (Delete E d c user g now) = None"
  shows "comment_after (Delete E d c user g now)
           = stripDeletedInfo (c\<lparr>DeletedAt := Some now, DeletedBy := Some user, DeletedAs := g\<rparr>)"
    and "comments (store_after (Delete E d c user g now))
           = (comments d)(ID c := map_option
                (\<lambda>r. r\<lparr>col_body := [], col_deleted_at := Some now, col_deleted_by := Some user,
                       col_deleted_as := g\<rparr>) (comments d (ID c)))"
proof -
  have a: "\<not> Deleted c" "Delete_switch E d c user g = None"
    using assms by (auto simp: Delete_def split: if_splits option.splits)
  note t = Transact_Inr [of "Delete_tx c user g now" d, OF Delete_tx_eq]
  show "comment_after (Delete E d c user g now)
           = stripDeletedInfo (c\<lparr>DeletedAt := Some now, DeletedBy := Some user, DeletedAs := g\<rparr>)"
    using a by (simp add: Delete_def t Let_def)
  show "comments (store_after (Delete E d c user g now))
           = (comments d)(ID c := map_option
                (\<lambda>r. r\<lparr>col_body := [], col_deleted_at := Some now, col_deleted_by := Some user,
                       col_deleted_as := g\<rparr>) (comments d (ID c)))"
    using a by (simp add: Delete_def t Let_def comments_update_one [symmetric])
qed

lemma Delete_redacts:
  assumes "returned (Delete E d c user g now) = None"
  shows "Deleted (comment_after (Delete E d c user g now))
       \<and> redacted (comment_after (Delete E d c user g now))
       \<and> same_place_and_counters c (comment_after (Delete E d c user g now))
       \<and> (\<forall>k. rel_option row_keeps_place_and_counters (comments d k)
                 (comments (store_after (Delete E d c user g now)) k))"
proof (intro conjI allI)
  note s = Delete_success [OF assms]
  have del: "Deleted (c\<lparr>DeletedAt := Some now, DeletedBy := Some user, DeletedAs := g\<rparr>)"
    by (simp add: Deleted_def)
  show "Deleted (comment_after (Delete E d c user g now))"
    unfolding s(1) using del by simp
  show "redacted (comment_after (Delete E d c user g now))"
    unfolding s(1) using del by (rule stripDeletedInfo_redacted)
  show "same_place_and_counters c (comment_after (Delete E d c user g now))"
    by (simp add: s(1) same_place_and_counters_def stripDeletedInfo_def)
  fix k
  show "rel_option row_keeps_place_and_counters (comments d k)
          (comments (store_after (Delete E d c user g now)) k)"
    by (cases "comments d k") (auto simp add: s(2) row_keeps_place_and_counters_def)
qed

text \<open>
  C4. A deleted comment, in every representation handed to a caller, has its body, its
  author identity (author id, username, posted-as group, \<open>Author\<close> record) and its
  per-viewer vote flags cleared: the body and the username hold the fixed placeholders
  \<open>[Deleted comment]\<close> and \<open>Hidden\<close>, the author id is the zero id, the group is
  \<open>UserGroupNaN\<close>, and \<open>Author\<close> and both vote flags are null. Its id, parent id, ancestor
  path, depth and counters are those of the comment before: this holds for
  \<open>stripDeletedInfo\<close> itself, for every comment \<open>scanComments\<close> and \<open>GetComment\<close> return
  (against the row read), and for the comment in memory after a successful \<open>Delete\<close>,
  which also leaves these columns of every stored row as they were.
\<close>

theorem deleted_comment_redacted:
  "(Deleted c0 \<longrightarrow> redacted (stripDeletedInfo c0) \<and> same_place_and_counters c0 (stripDeletedInfo c0))
   \<and> (scanComments E d rows viewer = Inr cs \<longrightarrow>
        list_all2 (\<lambda>x c'. (Deleted c' \<longrightarrow> redacted c')
                          \<and> row_place_and_counters (fst x) (fst (snd x)) c') rows cs)
   \<and> (GetComment E d i viewer = Inr c' \<longrightarrow>
        (Deleted c' \<longrightarrow> redacted c')
        \<and> (\<exists>r. comments d i = Some r \<and> row_place_and_counters i r c' \<and> DeletedAt c' = col_deleted_at r))
   \<and> (returned (Delete E d c user g now) = None \<longrightarrow>
        Deleted (comment_after (Delete E d c user g now))
        \<and> redacted (comment_after (Delete E d c user g now))
        \<and> same_place_and_counters c (comment_after (Delete E d c user g now))
        \<and> (\<forall>k. rel_option row_keeps_place_and_counters (comments d k)
                 (comments (store_after (Delete E d c user g now)) k)))"
proof (intro conjI)
  show "Deleted c0 \<longrightarrow> redacted (stripDeletedInfo c0) \<and> same_place_and_counters c0 (stripDeletedInfo c0)"
    by (simp add: stripDeletedInfo_redacted stripDeletedInfo_same_place)
  show "scanComments E d rows viewer = Inr cs \<longrightarrow>
        list_all2 (\<lambda>x c'. (Deleted c' \<longrightarrow> redacted c')
                          \<and> row_place_and_counters (fst x) (fst (snd x)) c') rows cs"
    using scanComments_redacts by blast
  show "GetComment E d i viewer = Inr c' \<longrightarrow>
        (Deleted c' \<longrightarrow> redacted c')
        \<and> (\<exists>r. comments d i = Some r \<and> row_place_and_counters i r c' \<and> DeletedAt c' = col_deleted_at r)"
    using GetComment_redacts by blast
  show "returned (Delete E d c user g now) = None \<longrightarrow>
        Deleted (comment_after (Delete E d c user g now))
        \<and> redacted (comment_after (Delete E d c user g now))
        \<and> same_place_and_counters c (comment_after (Delete E d c user g now))
        \<and> (\<forall>k. rel_option row_keeps_place_and_counters (comments d k)
                 (comments (store_after (Delete E d c user g now)) k))"
    using Delete_redacts by blast
qed


theorem deleted_comment_redacted_witness:
  "Deleted (ex_comment\<lparr>DeletedAt := Some 200\<rparr>)
   \<and> redacted (stripDeletedInfo (ex_comment\<lparr>DeletedAt := Some 200\<rparr>))
   \<and> same_place_and_counters (ex_comment\<lparr>DeletedAt := Some 200\<rparr>)
         (stripDeletedInfo (ex_comment\<lparr>DeletedAt := Some 200\<rparr>))
   \<and> GetComment ex_env ex_db_gone 10 (Some 2) = Inr (ex_comment_gone\<lparr>DeletedAs := UserGroupNormal\<rparr>)
   \<and> Deleted (ex_comment_gone\<lparr>DeletedAs := UserGroupNormal\<rparr>)
   \<and> redacted (ex_comment_gone\<lparr>DeletedAs := UserGroupNormal\<rparr>)
   \<and> returned (Delete ex_env ex_db ex_comment 1 UserGroupNormal 300) = None
   \<and> redacted (comment_after (Delete ex_env ex_db ex_comment 1 UserGroupNormal 300))
   \<and> same_place_and_counters ex_comment (comment_after (Delete ex_env ex_db ex_comment 1 UserGroupNormal 300))
   \<and> rel_option row_keeps_place_and_counters (comments ex_db 10)
        (comments (store_after (Delete ex_env ex_db ex_comment 1 UserGroupNormal 300)) 10)"
proof -
  have a: "Deleted (ex_comment\<lparr>DeletedAt := Some 200\<rparr>)"
    by (simp add: Deleted_def)
  have b: "GetComment ex_env ex_db_gone 10 (Some 2) = Inr (ex_comment_gone\<lparr>DeletedAs := UserGroupNormal\<rparr>)"
    by (simp add: GetComment_def scanComments_def select_comment_def populateCommentAuthors_def
        stripDeletedInfo_def Deleted_def ex_env_def ex_db_gone_def ex_db_def ex_comment_gone_def
        ex_comment_def scan_row_def ex_row_def ex_user_def)
  have c: "Deleted (ex_comment_gone\<lparr>DeletedAs := UserGroupNormal\<rparr>)"
    by (simp add: Deleted_def ex_comment_gone_def stripDeletedInfo_def)
  have e: "returned (Delete ex_env ex_db ex_comment 1 UserGroupNormal 300) = None"
    by (simp add: Delete_def Delete_switch_def Delete_tx_def Transact_def and_then_def
        exec_mark_deleted_def exec_delete_posts_comments_def exec_add_user_no_comments_def
        Deleted_def ex_comment_def scan_row_def ex_row_def Let_def)
  show ?thesis
    using a b c e
      deleted_comment_redacted [of "ex_comment\<lparr>DeletedAt := Some 200\<rparr>" ex_env ex_db_gone
        "select_comment ex_db_gone 10 (Some 2)" "Some 2" "[ex_comment_gone\<lparr>DeletedAs := UserGroupNormal\<rparr>]"
        10 "ex_comment_gone\<lparr>DeletedAs := UserGroupNormal\<rparr>" ex_comment 1 UserGroupNormal 300]
      deleted_comment_redacted [of "ex_comment\<lparr>DeletedAt := Some 200\<rparr>" ex_env ex_db
        "select_comment ex_db_gone 10 (Some 2)" "Some 2" "[ex_comment_gone\<lparr>DeletedAs := UserGroupNormal\<rparr>]"
        10 "ex_comment_gone\<lparr>DeletedAs := UserGroupNormal\<rparr>" ex_comment 1 UserGroupNormal 300]
    by simp
qed

subsection \<open>Adding a comment\<close>

lemma insert_comment_replies_comments:
  "insert_comment_replies vs i d = Inr d' \<Longrightarrow> comments d' = comments d"
  by (induction vs arbitrary: d) (auto simp: and_then_def exec_insert_comment_reply_def)

lemma exec_update_post_activity_comments:
  "exec_update_post_activity p now d = Inr d' \<Longrightarrow> comments d' = comments d"
  by (auto simp: exec_update_post_activity_def split: option.splits)

lemma exec_insert_posts_comments_comments:
  "exec_insert_posts_comments t u ty d = Inr d' \<Longrightarrow> comments d' = comments d"
  by (auto simp: exec_insert_posts_comments_def)

lemma exec_add_user_no_comments_comments:
  "exec_add_user_no_comments u n d = Inr d' \<Longrightarrow> comments d' = comments d"
  by (auto simp: exec_add_user_no_comments_def)

lemma and_then_Inr: "and_then r f = Inr y \<Longrightarrow> \<exists>x. r = Inr x \<and> f x = Inr y"
  by (cases r) (auto simp: and_then_def)

text \<open>The row that the INSERT of \<open>addComment\<close> writes.\<close>

lemma exec_insert_comment_Inr:
  assumes "exec_insert_comment E i post author newParentID depth ancestorsJSON body now d = Inr d1"
  shows "comments d i = None"
    and "\<exists>r. comments d1 = (comments d)(i \<mapsto> r) \<and> col_parent_id r = newParentID
             \<and> col_depth r = depth \<and> col_ancestors r = ancestorsJSON"
  using assms by (auto simp: exec_insert_comment_def split: if_splits)

text \<open>The two counter updates of a reply, on one row.\<close>

lemma reply_counter_updates:
  "comments (update_comments (\<lambda>k r. k \<in> set path)
              (\<lambda>r. r\<lparr>col_no_replies := col_no_replies r + 1\<rparr>)
              (update_comments (\<lambda>k r. k = p)
                (\<lambda>r. r\<lparr>col_no_replies_direct := col_no_replies_direct r + 1\<rparr>) d)) k
   = map_option
       (\<lambda>r. r\<lparr>col_no_replies := col_no_replies r + (if k \<in> set path then 1 else 0),
              col_no_replies_direct := col_no_replies_direct r + (if k = p then 1 else 0)\<rparr>)
       (comments d k)"
  by (cases "comments d k") (auto simp: update_comments_def)

lemma addComment_tx_comments:
  assumes "addComment_tx E post author parent ancestors body i now d = Inr d'"
  shows "comments d i = None"
    and "\<exists>r. comments d' i = Some r
           \<and> col_parent_id r = (case parent of None \<Rightarrow> None | Some p \<Rightarrow> Some (ID p))
           \<and> col_depth r = (case parent of None \<Rightarrow> 0 | Some p \<Rightarrow> Depth p + 1)
           \<and> col_ancestors r = ancestors"
    and "k \<noteq> i \<Longrightarrow> comments d' k =
           (case parent of
              None \<Rightarrow> comments d k
            | Some p \<Rightarrow>
                map_option
                  (\<lambda>r. r\<lparr>col_no_replies := col_no_replies r
                            + (if k \<in> set (case ancestors of None \<Rightarrow> [] | Some a \<Rightarrow> a) then 1 else 0),
                         col_no_replies_direct := col_no_replies_direct r + (if k = ID p then 1 else 0)\<rparr>)
                  (comments d k))"
proof -
  define path where "path = (case ancestors of None \<Rightarrow> [] | Some a \<Rightarrow> a)"
  from assms obtain d1 d2 d4 d5 d6 where
    s1: "exec_insert_comment E i post author (case parent of None \<Rightarrow> None | Some p \<Rightarrow> Some (ID p))
           (case parent of None \<Rightarrow> 0 | Some p \<Rightarrow> Depth p + 1) ancestors body now d = Inr d1"
    and s2: "exec_update_post_activity (Post_ID post) now d1 = Inr d2"
    and s4: "(case parent of None \<Rightarrow> Inr d2
              | Some p \<Rightarrow> and_then (exec_inc_no_replies_direct (ID p) d2) (exec_inc_no_replies path)) = Inr d4"
    and s5: "exec_insert_posts_comments i (User_ID author) postsCommentsTypeComments d4 = Inr d5"
    and s6: "insert_comment_replies path i d5 = Inr d6"
    and s7: "exec_add_user_no_comments (User_ID author) 1 d6 = Inr d'"
    unfolding addComment_tx_def Let_def path_def
    by (blast dest!: and_then_Inr)
  from exec_insert_comment_Inr [OF s1] obtain r where
    n: "comments d i = None"
    and r: "comments d1 = (comments d)(i \<mapsto> r)"
      "col_parent_id r = (case parent of None \<Rightarrow> None | Some p \<Rightarrow> Some (ID p))"
      "col_depth r = (case parent of None \<Rightarrow> 0 | Some p \<Rightarrow> Depth p + 1)"
      "col_ancestors r = ancestors"
    by blast
  have c2: "comments d2 = comments d1"
    using s2 by (rule exec_update_post_activity_comments)
  have c': "comments d' = comments d4"
    using s5 s6 s7 exec_insert_posts_comments_comments insert_comment_replies_comments
      exec_add_user_no_comments_comments by metis
  have c4: "comments d4 k =
          (case parent of
             None \<Rightarrow> comments d2 k
           | Some p \<Rightarrow>
               map_option
                 (\<lambda>r. r\<lparr>col_no_replies := col_no_replies r + (if k \<in> set path then 1 else 0),
                        col_no_replies_direct := col_no_replies_direct r + (if k = ID p then 1 else 0)\<rparr>)
                 (comments d2 k))" for k
  proof (cases parent)
    case None
    with s4 show ?thesis by simp
  next
    case (Some p)
    with s4 have "d4 = update_comments (\<lambda>k r. k \<in> set path)
              (\<lambda>r. r\<lparr>col_no_replies := col_no_replies r + 1\<rparr>)
              (update_comments (\<lambda>k r. k = ID p)
                (\<lambda>r. r\<lparr>col_no_replies_direct := col_no_replies_direct r + 1\<rparr>) d2)"
      by (simp add: and_then_def exec_inc_no_replies_direct_def exec_inc_no_replies_def)
    then show ?thesis
      using Some by (simp add: reply_counter_updates)
  qed
  show "comments d i = None" by (rule n)
  show "\<exists>r. comments d' i = Some r
           \<and> col_parent_id r = (case parent of None \<Rightarrow> None | Some p \<Rightarrow> Some (ID p))
           \<and> col_depth r = (case parent of None \<Rightarrow> 0 | Some p \<Rightarrow> Depth p + 1)
           \<and> col_ancestors r = ancestors"
    using r by (cases parent) (simp_all add: c' c4 c2)
  show "comments d' k =
           (case parent of
              None \<Rightarrow> comments d k
            | Some p \<Rightarrow>
                map_option
                  (\<lambda>r. r\<lparr>col_no_replies := col_no_replies r
                            + (if k \<in> set (case ancestors of None \<Rightarrow> [] | Some a \<Rightarrow> a) then 1 else 0),
                         col_no_replies_direct := col_no_replies_direct r + (if k = ID p then 1 else 0)\<rparr>)
                  (comments d k))" if "k \<noteq> i"
  proof -
    have "comments d2 k = comments d k"
      using that by (simp add: c2 r(1))
    then show ?thesis
      unfolding c' c4 path_def by (cases parent) simp_all
  qed
qed

lemma load_parent_None:
  "load_parent E d None = Inr (parent, ancestors) \<Longrightarrow> parent = None \<and> ancestors = None"
  by (simp add: load_parent_def)

lemma load_parent_Some:
  assumes "load_parent E d (Some p) = Inr (parent, ancestors)"
  shows "\<exists>pc r. parent = Some pc \<and> GetComment E d p None = Inr pc \<and> ID pc = p
           \<and> ancestors = Some (Ancestors pc @ [p]) \<and> \<not> Deleted pc \<and> Depth pc \<noteq> maxCommentDepth E
           \<and> comments d p = Some r \<and> row_place_and_counters p r pc"
proof -
  from assms obtain pc where
    g: "GetComment E d p None = Inr pc"
    and rest: "\<not> Deleted pc" "Depth pc \<noteq> maxCommentDepth E" "parent = Some pc"
      "ancestors = Some (Ancestors pc @ [ID pc])"
    by (auto simp: load_parent_def split: sum.splits if_splits)
  from GetComment_redacts [OF g] obtain r where
    r: "comments d p = Some r" "row_place_and_counters p r pc"
    by blast
  then have "ID pc = p"
    by (simp add: row_place_and_counters_def)
  with g rest r show ?thesis by simp
qed

lemma addComment_success:
  assumes "fst (addComment E d post author parentID body i now) = Inr c"
  obtains parent ancestors d' where
    "load_parent E d parentID = Inr (parent, ancestors)"
    "addComment_tx E post author parent ancestors
       (TruncateUnicodeString E body (maxCommentBodyLength E)) i now d = Inr d'"
    "snd (addComment E d post author parentID body i now) = d'"
    "GetComment E d' i None = Inr c"
proof -
  from assms obtain parent ancestors where
    l: "load_parent E d parentID = Inr (parent, ancestors)"
    by (cases "load_parent E d parentID") (auto simp: addComment_def Let_def)
  show thesis
  proof (cases rule: Transact_cases [of "addComment_tx E post author parent ancestors
       (TruncateUnicodeString E body (maxCommentBodyLength E)) i now" d])
    case (fail e)
    with assms l show ?thesis
      by (simp add: addComment_def Let_def)
  next
    case (ok d')
    with assms l have "snd (addComment E d post author parentID body i now) = d'"
      "GetComment E d' i None = Inr c"
      by (simp_all add: addComment_def Let_def)
    with l ok(1) show ?thesis by (rule that)
  qed
qed

text \<open>
  C5. The comment \<open>c\<close> that a successful \<open>addComment\<close> returns: without a parent it is a
  root, with depth 0 and no ancestors; with the parent id \<open>p\<close> its depth is the depth of
  the parent plus one and its ancestor path is the parent's path with \<open>p\<close> appended at the
  end, the parent being the comment \<open>GetComment\<close> returns for \<open>p\<close> in the store before the
  call, which carries the depth and the path of the stored row of \<open>p\<close>.
\<close>

theorem addComment_depth_and_ancestors:
  assumes "fst (addComment E d post author parentID body i now) = Inr c"
  shows "(parentID = None \<longrightarrow> ParentID c = None \<and> Depth c = 0 \<and> Ancestors c = [])
       \<and> (\<forall>p. parentID = Some p \<longrightarrow>
            (\<exists>parent r. GetComment E d p None = Inr parent \<and> comments d p = Some r
               \<and> ID parent = p \<and> Depth parent = col_depth r
               \<and> Ancestors parent = (case col_ancestors r of None \<Rightarrow> [] | Some a \<Rightarrow> a)
               \<and> ParentID c = Some p
               \<and> Depth c = Depth parent + 1
               \<and> Ancestors c = Ancestors parent @ [p]))"
proof -
  from assms obtain parent ancestors d' where
    l: "load_parent E d parentID = Inr (parent, ancestors)"
    and t: "addComment_tx E post author parent ancestors
       (TruncateUnicodeString E body (maxCommentBodyLength E)) i now d = Inr d'"
    and g: "GetComment E d' i None = Inr c"
    by (rule addComment_success)
  from addComment_tx_comments(2) [OF t] obtain r' where
    r': "comments d' i = Some r'"
      "col_parent_id r' = (case parent of None \<Rightarrow> None | Some p \<Rightarrow> Some (ID p))"
      "col_depth r' = (case parent of None \<Rightarrow> 0 | Some p \<Rightarrow> Depth p + 1)"
      "col_ancestors r' = ancestors"
    by blast
  from GetComment_redacts [OF g] r'(1) have c: "row_place_and_counters i r' c"
    by auto
  have root: "ParentID c = None \<and> Depth c = 0 \<and> Ancestors c = []" if "parentID = None"
  proof -
    from that l have "parent = None" "ancestors = None"
      by (auto dest: load_parent_None)
    with c r' show ?thesis
      by (simp add: row_place_and_counters_def)
  qed
  have reply: "\<exists>parent r. GetComment E d p None = Inr parent \<and> comments d p = Some r
               \<and> ID parent = p \<and> Depth parent = col_depth r
               \<and> Ancestors parent = (case col_ancestors r of None \<Rightarrow> [] | Some a \<Rightarrow> a)
               \<and> ParentID c = Some p
               \<and> Depth c = Depth parent + 1
               \<and> Ancestors c = Ancestors parent @ [p]" if "parentID = Some p" for p
  proof -
    from that l obtain pc r where
      pc: "parent = Some pc" "GetComment E d p None = Inr pc" "ID pc = p"
        "ancestors = Some (Ancestors pc @ [p])" "comments d p = Some r"
        "row_place_and_counters p r pc"
      by (blast dest: load_parent_Some)
    have "ParentID c = Some p \<and> Depth c = Depth pc + 1 \<and> Ancestors c = Ancestors pc @ [p]"
      using c r' pc(1,3,4) by (simp add: row_place_and_counters_def)
    moreover have "Depth pc = col_depth r
        \<and> Ancestors pc = (case col_ancestors r of None \<Rightarrow> [] | Some a \<Rightarrow> a)"
      using pc(6) by (simp add: row_place_and_counters_def)
    ultimately show ?thesis
      using pc(2,3,5) by blast
  qed
  from root reply show ?thesis by blast
qed

text \<open>
  C6, as the code has it. After a successful \<open>addComment\<close> with the parent \<open>X\<close>, every
  row of \<open>comments\<close> other than the new one is the row before the call with the
  total-reply counter one higher exactly for \<open>X\<close> and the ancestors of \<open>X\<close>, and the
  direct-reply counter one higher exactly for \<open>X\<close>; no other column and no other row
  changes.
\<close>

theorem addComment_reply_counters:
  assumes "fst (addComment E d post author (Some X) body i now) = Inr c"
  shows "\<exists>parent. GetComment E d X None = Inr parent \<and> comments d i = None
          \<and> (\<forall>k. k \<noteq> i \<longrightarrow>
                comments (snd (addComment E d post author (Some X) body i now)) k
                = map_option
                    (\<lambda>r. r\<lparr>col_no_replies := col_no_replies r
                              + (if k \<in> set (Ancestors parent @ [X]) then 1 else 0),
                           col_no_replies_direct := col_no_replies_direct r
                              + (if k = X then 1 else 0)\<rparr>)
                    (comments d k))"
proof -
  from assms obtain parent ancestors d' where
    l: "load_parent E d (Some X) = Inr (parent, ancestors)"
    and t: "addComment_tx E post author parent ancestors
       (TruncateUnicodeString E body (maxCommentBodyLength E)) i now d = Inr d'"
    and s: "snd (addComment E d post author (Some X) body i now) = d'"
    by (rule addComment_success)
  from l obtain pc where
    pc: "parent = Some pc" "GetComment E d X None = Inr pc" "ID pc = X"
      "ancestors = Some (Ancestors pc @ [X])"
    by (blast dest: load_parent_Some)
  have "comments d' k
        = map_option
            (\<lambda>r. r\<lparr>col_no_replies := col_no_replies r
                      + (if k \<in> set (Ancestors pc @ [X]) then 1 else 0),
                   col_no_replies_direct := col_no_replies_direct r + (if k = X then 1 else 0)\<rparr>)
            (comments d k)" if "k \<noteq> i" for k
    using addComment_tx_comments(3) [OF t that] pc(1,3,4) by simp
  with pc(2) addComment_tx_comments(1) [OF t] s show ?thesis by blast
qed

lemmas add_defs = addComment_def load_parent_def addComment_tx_def GetComment_def scanComments_def
  select_comment_def populateCommentAuthors_def stripDeletedInfo_def Deleted_def Transact_def and_then_def
  exec_insert_comment_def exec_update_post_activity_def exec_inc_no_replies_direct_def exec_inc_no_replies_def
  exec_insert_posts_comments_def exec_insert_comment_reply_def exec_add_user_no_comments_def
  update_comments_def update_user_def postsCommentsTypeComments_def Let_def

lemma ex_reply_added:
  "fst (addComment ex_env ex_db ex_post (ex_user 2) (Some 10) ''reply'' 11 300) = Inr ex_reply"
  by (simp add: add_defs ex_env_def ex_db_def ex_post_def ex_user_def ex_reply_def ex_row_def scan_row_def)

lemma ex_root_added:
  "fst (addComment ex_env ex_db ex_post (ex_user 2) None ''again'' 12 300) = Inr ex_root"
  by (simp add: add_defs ex_env_def ex_db_def ex_post_def ex_user_def ex_root_def ex_row_def scan_row_def)

lemma ex_reply_deep_added:
  "fst (addComment ex_env ex_db_tree ex_post (ex_user 1) (Some 20) ''deep'' 21 300) = Inr ex_reply_deep"
  by (simp add: add_defs ex_env_def ex_db_tree_def ex_db_def ex_post_def ex_user_def ex_reply_deep_def
      ex_row_def scan_row_def)

theorem addComment_depth_and_ancestors_witness:
  "fst (addComment ex_env ex_db ex_post (ex_user 2) None ''again'' 12 300) = Inr ex_root
   \<and> ParentID ex_root = None \<and> Depth ex_root = 0 \<and> Ancestors ex_root = []
   \<and> fst (addComment ex_env ex_db_tree ex_post (ex_user 1) (Some 20) ''deep'' 21 300) = Inr ex_reply_deep
   \<and> map_option col_depth (comments ex_db_tree 20) = Some 1
   \<and> map_option col_ancestors (comments ex_db_tree 20) = Some (Some [10])
   \<and> ParentID ex_reply_deep = Some 20 \<and> Depth ex_reply_deep = 2 \<and> Ancestors ex_reply_deep = [10, 20]"
proof -
  have r: "map_option col_depth (comments ex_db_tree 20) = Some 1"
    "map_option col_ancestors (comments ex_db_tree 20) = Some (Some [10])"
    by (simp_all add: ex_db_tree_def ex_db_def ex_row_def)
  show ?thesis
    using r ex_root_added ex_reply_deep_added
      addComment_depth_and_ancestors [OF ex_root_added]
      addComment_depth_and_ancestors [OF ex_reply_deep_added]
    by auto
qed

text \<open>
  C6, as the claim states it, lets the total-reply counter change only for the ancestors
  of \<open>X\<close>. On the small store the root comment 10 has no ancestors, and a reply to it
  takes its total-reply counter from 0 to 1.
\<close>

theorem reply_bumps_total_of_parent:
  "fst (addComment ex_env ex_db ex_post (ex_user 2) (Some 10) ''reply'' 11 300) = Inr ex_reply
   \<and> GetComment ex_env ex_db 10 None = Inr (ex_comment\<lparr>Author := Some (ex_user 1)\<rparr>)
   \<and> 10 \<notin> set (Ancestors (ex_comment\<lparr>Author := Some (ex_user 1)\<rparr>))
   \<and> map_option col_no_replies (comments ex_db 10) = Some 0
   \<and> map_option col_no_replies
        (comments (snd (addComment ex_env ex_db ex_post (ex_user 2) (Some 10) ''reply'' 11 300)) 10)
       = Some 1"
  by (simp add: add_defs ex_env_def ex_db_def ex_post_def ex_user_def ex_reply_def ex_row_def scan_row_def
      ex_comment_def)

theorem addComment_reply_counters_witness:
  "fst (addComment ex_env ex_db_tree ex_post (ex_user 1) (Some 20) ''deep'' 21 300) = Inr ex_reply_deep
   \<and> GetComment ex_env ex_db_tree 20 None
       = Inr ((scan_row (20, ex_row\<lparr>col_user_id := 2, col_parent_id := Some 10, col_depth := 1,
                                    col_ancestors := Some [10]\<rparr>, None))\<lparr>Author := Some (ex_user 2)\<rparr>)
   \<and> comments (snd (addComment ex_env ex_db_tree ex_post (ex_user 1) (Some 20) ''deep'' 21 300)) 10
       = Some (ex_row\<lparr>col_no_replies := 2, col_no_replies_direct := 1\<rparr>)
   \<and> comments (snd (addComment ex_env ex_db_tree ex_post (ex_user 1) (Some 20) ''deep'' 21 300)) 20
       = Some (ex_row\<lparr>col_user_id := 2, col_parent_id := Some 10, col_depth := 1,
                      col_ancestors := Some [10], col_no_replies := 1, col_no_replies_direct := 1\<rparr>)
   \<and> comments (snd (addComment ex_env ex_db_tree ex_post (ex_user 1) (Some 20) ''deep'' 21 300)) 30
       = Some ex_row"
proof -
  have g: "GetComment ex_env ex_db_tree 20 None
       = Inr ((scan_row (20, ex_row\<lparr>col_user_id := 2, col_parent_id := Some 10, col_depth := 1,
                                    col_ancestors := Some [10]\<rparr>, None))\<lparr>Author := Some (ex_user 2)\<rparr>)"
    by (simp add: add_defs ex_env_def ex_db_tree_def ex_db_def ex_user_def ex_row_def scan_row_def)
  have a: "Ancestors ((scan_row (20, ex_row\<lparr>col_user_id := 2, col_parent_id := Some 10, col_depth := 1,
                                    col_ancestors := Some [10]\<rparr>, None))\<lparr>Author := Some (ex_user 2)\<rparr>) = [10]"
    by (simp add: scan_row_def)
  have c: "comments ex_db_tree 10 = Some (ex_row\<lparr>col_no_replies := 1, col_no_replies_direct := 1\<rparr>)"
    "comments ex_db_tree 20 = Some (ex_row\<lparr>col_user_id := 2, col_parent_id := Some 10, col_depth := 1,
                       col_ancestors := Some [10]\<rparr>)"
    "comments ex_db_tree 30 = Some ex_row"
    by (simp_all add: ex_db_tree_def)
  have z: "col_no_replies ex_row = 0" "col_no_replies_direct ex_row = 0"
    by (simp_all add: ex_row_def)
  from addComment_reply_counters [OF ex_reply_deep_added] g
  have "\<forall>k. k \<noteq> 21 \<longrightarrow>
          comments (snd (addComment ex_env ex_db_tree ex_post (ex_user 1) (Some 20) ''deep'' 21 300)) k
          = map_option
              (\<lambda>r. r\<lparr>col_no_replies := col_no_replies r + (if k \<in> set ([10] @ [20]) then 1 else 0),
                     col_no_replies_direct := col_no_replies_direct r + (if k = 20 then 1 else 0)\<rparr>)
              (comments ex_db_tree k)"
    by (simp add: a)
  then show ?thesis
    using ex_reply_deep_added g c z by simp
qed

end
